theory Spec2Isabelle
  imports Complex_Main "HOL-Library.Multiset"
begin

section \<open>Data model of markerclusterer.js\<close>

text \<open>
  JavaScript numbers are modelled as reals (finite values only), object identity as a
  natural number. Marker objects belong to the caller and are shared between the engine's
  marker list, the nodes of the spatial index and the member lists of the clusters, so
  their mutable properties live in a heap that is split by field: \<open>isAdded w m\<close> is the
  property \<open>isAdded\<close> of marker object \<open>m\<close> in state \<open>w\<close>. A trailing underscore of a
  source name is dropped (\<open>markers_\<close> is \<open>markers\<close>), and the fields of a cluster carry
  the prefix \<open>cl_\<close>, those of an icon the prefix \<open>icon_\<close>.
\<close>

type_synonym marker_ref = nat
type_synonym map_ref = nat
type_synonym cluster_ref = nat

text \<open>google.maps.LatLng (positions are valid coordinates, so the constructor's
  clamping and wrapping never applies) and google.maps.Point, a pair \<open>(x, y)\<close>.\<close>

record LatLng =
  lat :: real
  lng :: real

type_synonym Point = "real \<times> real"

text \<open>Modelled from the spec: google.maps.LatLngBounds, a rectangle given by its south-west
  and north-east corners.\<close>

record LatLngBounds =
  getSouthWest :: LatLng
  getNorthEast :: LatLng

definition LatLngBounds_new :: "LatLng \<Rightarrow> LatLng \<Rightarrow> LatLngBounds" where
  "LatLngBounds_new sw ne = \<lparr>getSouthWest = sw, getNorthEast = ne\<rparr>"

text \<open>Modelled from the spec: \<open>LatLngBounds.extend\<close> returns the union of the rectangle
  with the point.\<close>

definition bounds_extend :: "LatLngBounds \<Rightarrow> LatLng \<Rightarrow> LatLngBounds" where
  "bounds_extend b p =
     \<lparr>getSouthWest = \<lparr>lat = min (lat (getSouthWest b)) (lat p),
                       lng = min (lng (getSouthWest b)) (lng p)\<rparr>,
      getNorthEast = \<lparr>lat = max (lat (getNorthEast b)) (lat p),
                       lng = max (lng (getNorthEast b)) (lng p)\<rparr>\<rparr>"

text \<open>Modelled from the spec: \<open>LatLngBounds.contains\<close> is membership in the closed
  rectangle.\<close>

definition bounds_contains :: "LatLngBounds \<Rightarrow> LatLng \<Rightarrow> bool" where
  "bounds_contains b p =
     (lat (getSouthWest b) \<le> lat p \<and> lat p \<le> lat (getNorthEast b) \<and>
      lng (getSouthWest b) \<le> lng p \<and> lng p \<le> lng (getNorthEast b))"

text \<open>The map surface as one operation sees it: \<open>getBounds\<close> is \<open>None\<close> while the map
  has no bounds yet (JavaScript \<open>undefined\<close>), and the two projection functions are those
  of \<open>getProjection()\<close>.\<close>

record gmap =
  getBounds :: "LatLngBounds option"
  getZoom :: real
  fromLatLngToDivPixel :: "LatLng \<Rightarrow> Point"
  fromDivPixelToLatLng :: "Point \<Rightarrow> LatLng"

text \<open>ClusterIcon: the DOM node is left out, \<open>visible_\<close> and \<open>center\<close> are kept.
  \<open>icon_map\<close> is the map the overlay is attached to (\<open>setMap\<close>).\<close>

record ClusterIcon =
  icon_center :: "LatLng option"
  icon_map :: "map_ref option"
  icon_visible :: bool
  icon_width :: real
  icon_height :: real
  icon_anchor :: "nat option"

record Cluster =
  cl_id :: cluster_ref
  cl_map :: map_ref
  cl_gridSize :: real
  cl_minClusterSize :: real
  cl_averageCenter :: bool
  cl_center :: "LatLng option"
  cl_markers :: "marker_ref list"
  cl_bounds :: "LatLngBounds option"
  clusterIcon :: ClusterIcon

text \<open>What an icon generator returns: the default returns the number of markers.\<close>

datatype content = NumberContent nat | TextContent string | NodeContent nat

text \<open>Modelled from the spec: the spatial index (rbush) holds one record
  \<open>(lat, lng, marker)\<close> per insertion, here in the order of insertion.\<close>

type_synonym node = "real \<times> real \<times> marker_ref"
type_synonym rbush = "node list"

text \<open>Modelled from the spec: \<open>insert\<close> adds one record, \<open>load\<close> adds the records of a
  list, \<open>all\<close> returns every record, \<open>remove\<close> deletes one record equal to the given
  one and does nothing when there is none, \<open>clear\<close> drops all records.\<close>

definition rbush_insert :: "node \<Rightarrow> rbush \<Rightarrow> rbush" where
  "rbush_insert n t = t @ [n]"

definition rbush_load :: "node list \<Rightarrow> rbush \<Rightarrow> rbush" where
  "rbush_load ns t = t @ ns"

definition rbush_all :: "rbush \<Rightarrow> node list" where
  "rbush_all t = t"

definition rbush_remove :: "node \<Rightarrow> rbush \<Rightarrow> rbush" where
  "rbush_remove n t = remove1 n t"

definition rbush_clear :: "rbush \<Rightarrow> rbush" where
  "rbush_clear t = []"

text \<open>Modelled from the spec: \<open>search\<close> returns the records whose position lies in the
  closed rectangle \<open>[minLat, minLng, maxLat, maxLng]\<close>.\<close>

definition rbush_search :: "real \<times> real \<times> real \<times> real \<Rightarrow> rbush \<Rightarrow> node list" where
  "rbush_search r t =
     (case r of (minLat, minLng, maxLat, maxLng) \<Rightarrow>
        filter (\<lambda>n. minLat \<le> fst n \<and> fst n \<le> maxLat \<and>
                     minLng \<le> fst (snd n) \<and> fst (snd n) \<le> maxLng) t)"

text \<open>The engine object together with the marker objects it works on. \<open>position\<close>,
  \<open>isAdded\<close> and \<open>marker_map\<close> are the properties of the marker objects
  (\<open>getPosition()\<close>, \<open>isAdded\<close>, \<open>getMap()\<close>); \<open>next_cluster\<close> is the identity the next
  \<open>new Cluster\<close> receives.\<close>

record clusterer =
  the_map :: map_ref
  markers :: "marker_ref list"
  clusters :: "Cluster list"
  ready :: bool
  tree :: rbush
  gridSize :: real
  minClusterSize :: real
  maxZoom :: "real option"
  zoomOnClick :: bool
  averageCenter :: bool
  isClusterable :: "marker_ref \<Rightarrow> bool"
  iconGenerator :: "marker_ref list \<Rightarrow> content"
  clusterWidth :: "real option"
  clusterHeight :: "real option"
  anchor :: "nat option"
  position :: "marker_ref \<Rightarrow> LatLng"
  isAdded :: "marker_ref \<Rightarrow> bool"
  marker_map :: "marker_ref \<Rightarrow> map_ref option"
  next_cluster :: cluster_ref

datatype js_error = TypeError

text \<open>An operation returns a value and leaves a state, or throws and leaves the state
  it had reached.\<close>

datatype 'r outcome = Returns 'r clusterer | Throws js_error clusterer

fun state_of :: "'r outcome \<Rightarrow> clusterer" where
  "state_of (Returns r w) = w"
| "state_of (Throws e w) = w"

section \<open>Markers\<close>

definition setMap :: "marker_ref \<Rightarrow> map_ref option \<Rightarrow> clusterer \<Rightarrow> clusterer" where
  "setMap m v w = w\<lparr>marker_map := (marker_map w)(m := v)\<rparr>"

definition set_isAdded :: "marker_ref \<Rightarrow> bool \<Rightarrow> clusterer \<Rightarrow> clusterer" where
  "set_isAdded m b w = w\<lparr>isAdded := (isAdded w)(m := b)\<rparr>"

definition getMarkerNode :: "clusterer \<Rightarrow> marker_ref \<Rightarrow> node" where
  "getMarkerNode w m = (lat (position w m), lng (position w m), m)"

section \<open>Bounds\<close>

definition getExtendedBounds :: "gmap \<Rightarrow> clusterer \<Rightarrow> LatLngBounds \<Rightarrow> LatLngBounds" where
  "getExtendedBounds gm w bounds =
     (let tr = \<lparr>lat = lat (getNorthEast bounds), lng = lng (getNorthEast bounds)\<rparr>;
          bl = \<lparr>lat = lat (getSouthWest bounds), lng = lng (getSouthWest bounds)\<rparr>;
          trPix = fromLatLngToDivPixel gm tr;
          trPix = (fst trPix + gridSize w, snd trPix - gridSize w);
          blPix = fromLatLngToDivPixel gm bl;
          blPix = (fst blPix - gridSize w, snd blPix + gridSize w);
          ne = fromDivPixelToLatLng gm trPix;
          sw = fromDivPixelToLatLng gm blPix
      in bounds_extend (bounds_extend bounds ne) sw)"

definition boundsToArray :: "LatLngBounds \<Rightarrow> real \<times> real \<times> real \<times> real" where
  "boundsToArray bounds =
     (let ne = getNorthEast bounds; sw = getSouthWest bounds
      in (min (lat ne) (lat sw), min (lng ne) (lng sw),
          max (lat ne) (lat sw), max (lng ne) (lng sw)))"

section \<open>ClusterIcon and Cluster\<close>

definition ClusterIcon_new :: "map_ref \<Rightarrow> ClusterIcon" where
  "ClusterIcon_new mp =
     \<lparr>icon_center = None, icon_map = Some mp, icon_visible = False,
      icon_width = 0, icon_height = 0, icon_anchor = None\<rparr>"

definition hide :: "ClusterIcon \<Rightarrow> ClusterIcon" where
  "hide ic = ic\<lparr>icon_visible := False\<rparr>"

definition show_icon :: "ClusterIcon \<Rightarrow> ClusterIcon" where
  "show_icon ic = ic\<lparr>icon_visible := True\<rparr>"

definition ClusterIcon_remove :: "ClusterIcon \<Rightarrow> ClusterIcon" where
  "ClusterIcon_remove ic = ic\<lparr>icon_map := None\<rparr>"

text \<open>Truthiness of an optional number (as in \<open>a && b\<close> and \<open>if (a)\<close>): present and not zero.\<close>

definition truthy_num :: "real option \<Rightarrow> bool" where
  "truthy_num v = (case v of None \<Rightarrow> False | Some r \<Rightarrow> r \<noteq> 0)"

definition truthy_nat :: "nat option \<Rightarrow> bool" where
  "truthy_nat v = (case v of None \<Rightarrow> False | Some n \<Rightarrow> n \<noteq> 0)"

definition Cluster_new :: "clusterer \<Rightarrow> cluster_ref \<Rightarrow> Cluster" where
  "Cluster_new w i =
     (let ic = ClusterIcon_new (the_map w);
          ic = (if truthy_num (clusterWidth w) \<and> truthy_num (clusterHeight w)
                then ic\<lparr>icon_width := the (clusterWidth w), icon_height := the (clusterHeight w)\<rparr>
                else ic);
          ic = (if truthy_nat (anchor w) then ic\<lparr>icon_anchor := anchor w\<rparr> else ic)
      in \<lparr>cl_id = i, cl_map = the_map w, cl_gridSize = gridSize w,
          cl_minClusterSize = minClusterSize w, cl_averageCenter = averageCenter w,
          cl_center = None, cl_markers = [], cl_bounds = None, clusterIcon = ic\<rparr>)"

definition isMarkerAlreadyAdded :: "Cluster \<Rightarrow> marker_ref \<Rightarrow> bool" where
  "isMarkerAlreadyAdded c m = (m \<in> set (cl_markers c))"

definition calculateBounds :: "gmap \<Rightarrow> clusterer \<Rightarrow> Cluster \<Rightarrow> Cluster" where
  "calculateBounds gm w c =
     (case cl_center c of
        None \<Rightarrow> c
      | Some ctr \<Rightarrow> c\<lparr>cl_bounds := Some (getExtendedBounds gm w (LatLngBounds_new ctr ctr))\<rparr>)"

text \<open>\<open>mz && zoom > mz\<close>: a zoom cap is set, is not zero and is exceeded.\<close>

definition aboveMaxZoom :: "gmap \<Rightarrow> clusterer \<Rightarrow> bool" where
  "aboveMaxZoom gm w = (case maxZoom w of None \<Rightarrow> False | Some mz \<Rightarrow> mz \<noteq> 0 \<and> getZoom gm > mz)"

definition updateIcon :: "gmap \<Rightarrow> clusterer \<Rightarrow> Cluster \<Rightarrow> Cluster \<times> clusterer" where
  "updateIcon gm w c =
     (if aboveMaxZoom gm w
      then (c, fold (\<lambda>marker. setMap marker (Some (cl_map c))) (cl_markers c) w)
      else if real (length (cl_markers c)) < cl_minClusterSize c
      then (c\<lparr>clusterIcon := hide (clusterIcon c)\<rparr>, w)
      else (c\<lparr>clusterIcon := show_icon ((clusterIcon c)\<lparr>icon_center := cl_center c\<rparr>)\<rparr>, w))"

text \<open>\<open>Cluster.addMarker\<close>, in the order of the source: the centre and the bounds
  (\<open>addMarker_center\<close>), the flag and the member list, the visibility of the markers
  (\<open>addMarker_visibility\<close>), the icon.\<close>

definition addMarker_center :: "gmap \<Rightarrow> clusterer \<Rightarrow> Cluster \<Rightarrow> marker_ref \<Rightarrow> Cluster" where
  "addMarker_center gm w c marker =
     (case cl_center c of
        None \<Rightarrow> calculateBounds gm w (c\<lparr>cl_center := Some (position w marker)\<rparr>)
      | Some ctr \<Rightarrow>
          if cl_averageCenter c
          then let l = real (length (cl_markers c) + 1);
                   lat' = (lat ctr * (l - 1) + lat (position w marker)) / l;
                   lng' = (lng ctr * (l - 1) + lng (position w marker)) / l
               in calculateBounds gm w (c\<lparr>cl_center := Some \<lparr>lat = lat', lng = lng'\<rparr>\<rparr>)
          else c)"

definition addMarker_visibility :: "Cluster \<Rightarrow> marker_ref \<Rightarrow> clusterer \<Rightarrow> clusterer" where
  "addMarker_visibility c marker w =
     (let len = real (length (cl_markers c));
          w = (if len < cl_minClusterSize c \<and> marker_map w marker \<noteq> Some (cl_map c)
               then setMap marker (Some (cl_map c)) w else w);
          w = (if len = cl_minClusterSize c
               then fold (\<lambda>m. setMap m None) (cl_markers c) w else w)
      in if len \<ge> cl_minClusterSize c then setMap marker None w else w)"

definition Cluster_addMarker ::
  "gmap \<Rightarrow> clusterer \<Rightarrow> Cluster \<Rightarrow> marker_ref \<Rightarrow> bool \<times> Cluster \<times> clusterer" where
  "Cluster_addMarker gm w c marker =
     (if isMarkerAlreadyAdded c marker then (False, c, w)
      else
        let c = addMarker_center gm w c marker;
            w = set_isAdded marker True w;
            c = c\<lparr>cl_markers := cl_markers c @ [marker]\<rparr>;
            w = addMarker_visibility c marker w
        in case updateIcon gm w c of (c, w) \<Rightarrow> (True, c, w))"

definition Cluster_removeMarker :: "clusterer \<Rightarrow> Cluster \<Rightarrow> marker_ref \<Rightarrow> bool \<times> Cluster \<times> clusterer" where
  "Cluster_removeMarker w c marker =
     (if marker \<notin> set (cl_markers c) then (False, c, w)
      else (True, c\<lparr>cl_markers := remove1 marker (cl_markers c)\<rparr>, set_isAdded marker False w))"

text \<open>\<open>remove\<close> empties the member list (and deletes the property: the cluster is not
  used again) and detaches the icon.\<close>

definition Cluster_remove :: "Cluster \<Rightarrow> Cluster" where
  "Cluster_remove c = c\<lparr>clusterIcon := ClusterIcon_remove (clusterIcon c), cl_markers := []\<rparr>"

section \<open>MarkerClusterer\<close>

text \<open>\<open>Array.prototype.indexOf\<close> (\<open>-1\<close> when absent) and \<open>splice(index, 1)\<close>.\<close>

fun indexOf :: "'a list \<Rightarrow> 'a \<Rightarrow> int" where
  "indexOf [] x = - 1"
| "indexOf (y # ys) x =
     (if y = x then 0 else (let i = indexOf ys x in if i = - 1 then - 1 else i + 1))"

definition splice1 :: "'a list \<Rightarrow> nat \<Rightarrow> 'a list" where
  "splice1 xs i = take i xs @ drop (Suc i) xs"

text \<open>The options object: a property that is absent (\<open>undefined\<close>) is \<open>None\<close>; a
  property that is present has a value of its documented type. \<open>a || b\<close> yields \<open>b\<close>
  when \<open>a\<close> is absent, zero or false.\<close>

record options =
  o_gridSize :: "real option"
  o_maxZoom :: "real option"
  o_zoomOnClick :: "bool option"
  o_averageCenter :: "bool option"
  o_minimumClusterSize :: "real option"
  o_isClusterable :: "(marker_ref \<Rightarrow> bool) option"
  o_iconGenerator :: "(marker_ref list \<Rightarrow> content) option"
  o_width :: "real option"
  o_height :: "real option"
  o_anchor :: "nat option"

definition or_num :: "real option \<Rightarrow> real \<Rightarrow> real" where
  "or_num v d = (case v of None \<Rightarrow> d | Some r \<Rightarrow> if r \<noteq> 0 then r else d)"

definition or_null :: "real option \<Rightarrow> real option" where
  "or_null v = (case v of None \<Rightarrow> None | Some r \<Rightarrow> if r \<noteq> 0 then Some r else None)"

definition or_bool :: "bool option \<Rightarrow> bool \<Rightarrow> bool" where
  "or_bool v d = (case v of None \<Rightarrow> d | Some b \<Rightarrow> if b then b else d)"

definition or_fun :: "'a option \<Rightarrow> 'a \<Rightarrow> 'a" where
  "or_fun v d = (case v of None \<Rightarrow> d | Some f \<Rightarrow> f)"

text \<open>The marker objects handed to the engine.\<close>

record marker_heap =
  h_position :: "marker_ref \<Rightarrow> LatLng"
  h_isAdded :: "marker_ref \<Rightarrow> bool"
  h_map :: "marker_ref \<Rightarrow> map_ref option"

text \<open>The fields the constructor sets, before it adds the markers. The options are an
  object (the constructor reads \<open>options.maxMarkers\<close> before its \<open>options || {}\<close>).\<close>

definition MarkerClusterer_init :: "map_ref \<Rightarrow> marker_heap \<Rightarrow> options \<Rightarrow> clusterer" where
  "MarkerClusterer_init mp h opts =
     \<lparr>the_map = mp, markers = [], clusters = [], ready = False, tree = [],
      gridSize = or_num (o_gridSize opts) 60,
      minClusterSize = or_num (o_minimumClusterSize opts) 2,
      maxZoom = or_null (o_maxZoom opts),
      zoomOnClick = or_bool (o_zoomOnClick opts) True,
      averageCenter = or_bool (o_averageCenter opts) False,
      isClusterable = or_fun (o_isClusterable opts) (\<lambda>marker. True),
      iconGenerator = or_fun (o_iconGenerator opts) (\<lambda>ms. NumberContent (length ms)),
      clusterWidth = o_width opts, clusterHeight = o_height opts, anchor = o_anchor opts,
      position = h_position h, isAdded = h_isAdded h, marker_map = h_map h,
      next_cluster = 0\<rparr>"

fun returning :: "'b \<Rightarrow> 'a outcome \<Rightarrow> 'b outcome" where
  "returning b (Returns r w) = Returns b w"
| "returning b (Throws e w) = Throws e w"

text \<open>\<open>pushMarkerTo_\<close>; the \<open>dragend\<close> listener of a draggable marker is event wiring
  and is left out.\<close>

definition pushMarkerTo :: "marker_ref \<Rightarrow> clusterer \<Rightarrow> clusterer" where
  "pushMarkerTo marker w =
     (let w = set_isAdded marker False w in w\<lparr>markers := markers w @ [marker]\<rparr>)"

text \<open>The candidate loop of \<open>createClusters_\<close>: one node of the search result.\<close>

definition absorb_node :: "gmap \<Rightarrow> node \<Rightarrow> Cluster \<times> clusterer \<Rightarrow> Cluster \<times> clusterer" where
  "absorb_node gm nd cw =
     (case cw of (cluster, w) \<Rightarrow>
        let m = snd (snd nd) in
        if isAdded w m then (cluster, w)
        else if \<not> isClusterable w m then (cluster, w)
        else (case Cluster_addMarker gm w cluster m of (b, cluster, w) \<Rightarrow> (cluster, w)))"

text \<open>The body of the marker loop of \<open>createClusters_\<close>.\<close>

definition createClusters_body ::
  "gmap \<Rightarrow> LatLngBounds \<Rightarrow> marker_ref \<Rightarrow> clusterer \<Rightarrow> clusterer" where
  "createClusters_body gm mapBounds marker w =
     (if isAdded w marker then w
      else
        let pos = position w marker in
        if \<not> bounds_contains mapBounds pos then w
        else if \<not> isClusterable w marker then w
        else
          let cluster = Cluster_new w (next_cluster w);
              w = w\<lparr>next_cluster := Suc (next_cluster w)\<rparr>
          in case Cluster_addMarker gm w cluster marker of (b, cluster, w) \<Rightarrow>
             let bounds = getExtendedBounds gm w (LatLngBounds_new pos pos);
                 nodes = rbush_search (boundsToArray bounds) (tree w)
             in case fold (absorb_node gm) nodes (cluster, w) of (cluster, w) \<Rightarrow>
                w\<lparr>clusters := clusters w @ [cluster]\<rparr>)"

definition createClusters :: "gmap \<Rightarrow> clusterer \<Rightarrow> unit outcome" where
  "createClusters gm w =
     (if \<not> ready w then Returns () w
      else case getBounds gm of
        None \<Rightarrow> Throws TypeError w
      | Some mapBounds \<Rightarrow>
          let mapBounds = LatLngBounds_new (getSouthWest mapBounds) (getNorthEast mapBounds);
              mapBounds = getExtendedBounds gm w mapBounds
          in Returns () (fold (createClusters_body gm mapBounds) (markers w) w))"

definition redraw :: "gmap \<Rightarrow> clusterer \<Rightarrow> unit outcome" where
  "redraw gm w = createClusters gm w"

text \<open>\<open>resetViewport\<close>: every cluster is disposed (\<open>Cluster_remove\<close>) and dropped.\<close>

definition resetViewport :: "bool \<Rightarrow> clusterer \<Rightarrow> clusterer" where
  "resetViewport reset w =
     (let w = fold (\<lambda>marker w. let w = set_isAdded marker False w
                                in if reset then setMap marker None w else w) (markers w) w
      in w\<lparr>clusters := []\<rparr>)"

definition repaint :: "gmap \<Rightarrow> clusterer \<Rightarrow> unit outcome" where
  "repaint gm w = redraw gm (resetViewport False w)"

definition setReady :: "gmap \<Rightarrow> clusterer \<Rightarrow> bool \<Rightarrow> unit outcome" where
  "setReady gm w r = (if \<not> ready w then createClusters gm (w\<lparr>ready := r\<rparr>) else Returns () w)"

definition onAdd :: "gmap \<Rightarrow> clusterer \<Rightarrow> unit outcome" where
  "onAdd gm w = setReady gm w True"

definition addMarker :: "gmap \<Rightarrow> clusterer \<Rightarrow> marker_ref \<Rightarrow> bool \<Rightarrow> unit outcome" where
  "addMarker gm w marker nodraw =
     (let w = pushMarkerTo marker w;
          w = w\<lparr>tree := rbush_insert (getMarkerNode w marker) (tree w)\<rparr>
      in if \<not> nodraw then redraw gm w else Returns () w)"

definition addMarkers :: "gmap \<Rightarrow> clusterer \<Rightarrow> marker_ref list \<Rightarrow> bool \<Rightarrow> unit outcome" where
  "addMarkers gm w ms nodraw =
     (let w = fold pushMarkerTo ms w;
          w = w\<lparr>tree := rbush_load (map (getMarkerNode w) ms) (tree w)\<rparr>
      in if \<not> nodraw then redraw gm w else Returns () w)"

text \<open>\<open>removeMarker_\<close>, the private helper of \<open>removeMarker\<close> and \<open>removeMarkers\<close>.\<close>

definition removeMarker_internal :: "clusterer \<Rightarrow> marker_ref \<Rightarrow> bool \<times> clusterer" where
  "removeMarker_internal w marker =
     (let index = indexOf (markers w) marker in
      if index = - 1 then (False, w)
      else
        let w = setMap marker None w;
            w = w\<lparr>markers := splice1 (markers w) (nat index)\<rparr>;
            nodes = rbush_all (tree w);
            w = fold (\<lambda>nd w. if snd (snd nd) = marker
                               then w\<lparr>tree := rbush_remove nd (tree w)\<rparr> else w) nodes w
        in (True, w))"

definition removeMarker :: "gmap \<Rightarrow> clusterer \<Rightarrow> marker_ref \<Rightarrow> bool \<Rightarrow> bool outcome" where
  "removeMarker gm w marker opt_nodraw =
     (case removeMarker_internal w marker of (removed, w) \<Rightarrow>
        if \<not> opt_nodraw \<and> removed
        then returning True (redraw gm (resetViewport False w))
        else Returns False w)"

definition removeMarkers :: "gmap \<Rightarrow> clusterer \<Rightarrow> marker_ref list \<Rightarrow> bool \<Rightarrow> bool outcome" where
  "removeMarkers gm w ms nodraw =
     (case fold (\<lambda>marker rw. case rw of (removed, w) \<Rightarrow>
                   (case removeMarker_internal w marker of (r, w) \<Rightarrow> (removed \<or> r, w)))
                ms (False, w) of
        (removed, w) \<Rightarrow>
          if \<not> nodraw \<and> removed
          then returning True (redraw gm (resetViewport False w))
          else Returns False w)"

definition clearMarkers :: "gmap \<Rightarrow> clusterer \<Rightarrow> bool \<Rightarrow> unit outcome" where
  "clearMarkers gm w nodraw =
     (let w = resetViewport True w;
          w = w\<lparr>markers := []\<rparr>;
          w = w\<lparr>tree := rbush_clear (tree w)\<rparr>
      in if \<not> nodraw then redraw gm w else Returns () w)"

definition getMarkerCluster :: "clusterer \<Rightarrow> marker_ref \<Rightarrow> Cluster option" where
  "getMarkerCluster w marker =
     (if \<not> isAdded w marker then None
      else find (\<lambda>cluster. isMarkerAlreadyAdded cluster marker) (clusters w))"

text \<open>\<open>removeCluster\<close>: the first cluster of the list that is the given object is
  disposed and spliced out.\<close>

fun removeCluster_loop :: "Cluster \<Rightarrow> Cluster list \<Rightarrow> Cluster list" where
  "removeCluster_loop cluster [] = []"
| "removeCluster_loop cluster (c # cs) =
     (if cl_id cluster = cl_id c then cs else c # removeCluster_loop cluster cs)"

definition removeCluster :: "clusterer \<Rightarrow> Cluster \<Rightarrow> clusterer" where
  "removeCluster w cluster = w\<lparr>clusters := removeCluster_loop cluster (clusters w)\<rparr>"

text \<open>The constructor: the fields, then \<open>addMarkers(markers, false)\<close> when markers are given.\<close>

definition MarkerClusterer ::
  "gmap \<Rightarrow> map_ref \<Rightarrow> marker_heap \<Rightarrow> marker_ref list \<Rightarrow> options \<Rightarrow> unit outcome" where
  "MarkerClusterer gm mp h ms opts =
     (let w = MarkerClusterer_init mp h opts
      in if ms \<noteq> [] then addMarkers gm w ms False else Returns () w)"

section \<open>The icon's anchor\<close>

definition xalign_LEFT :: nat where "xalign_LEFT = 0"
definition xalign_CENTER :: nat where "xalign_CENTER = 1"
definition xalign_RIGHT :: nat where "xalign_RIGHT = 2"
definition yalign_TOP :: nat where "yalign_TOP = 0"
definition yalign_CENTER :: nat where "yalign_CENTER = 16"
definition yalign_BOTTOM :: nat where "yalign_BOTTOM = 32"

definition MarkerClusterer_TOP_LEFT :: nat where
  "MarkerClusterer_TOP_LEFT = or xalign_LEFT yalign_TOP"

definition MarkerClusterer_CENTER :: nat where
  "MarkerClusterer_CENTER = or xalign_CENTER yalign_CENTER"

text \<open>\<open>this.anchor || MarkerClusterer.CENTER\<close>, the anchor \<open>getPosFromLatLng_\<close> uses.\<close>

definition anchor_used :: "ClusterIcon \<Rightarrow> nat" where
  "anchor_used ic = (if truthy_nat (icon_anchor ic) then the (icon_anchor ic) else MarkerClusterer_CENTER)"

section \<open>The clustering pass in the words of the specification\<close>

text \<open>The markers a new cluster absorbs from the candidates the search returned, in that
  order: a candidate already clustered or not eligible is skipped.\<close>

fun absorb ::
  "(marker_ref \<Rightarrow> bool) \<Rightarrow> (marker_ref \<Rightarrow> bool) \<Rightarrow> marker_ref list \<Rightarrow> marker_ref list" where
  "absorb eligible added [] = []"
| "absorb eligible added (m # ms) =
     (if added m \<or> \<not> eligible m then absorb eligible added ms
      else m # absorb eligible (added(m := True)) ms)"

text \<open>The member lists of the clusters a pass creates, in the order of creation: the
  markers are visited in registration order, and a marker that is not yet clustered, inside
  the expanded viewport and eligible seeds a cluster, which absorbs the candidates around
  the seed.\<close>

fun greedy_pass ::
  "(marker_ref \<Rightarrow> bool) \<Rightarrow> (marker_ref \<Rightarrow> bool) \<Rightarrow> (marker_ref \<Rightarrow> marker_ref list) \<Rightarrow>
   (marker_ref \<Rightarrow> bool) \<Rightarrow> marker_ref list \<Rightarrow> marker_ref list list" where
  "greedy_pass inside eligible search added [] = []"
| "greedy_pass inside eligible search added (m # ms) =
     (if added m \<or> \<not> inside m \<or> \<not> eligible m
      then greedy_pass inside eligible search added ms
      else let members = m # absorb eligible (added(m := True)) (search m)
           in members # greedy_pass inside eligible search (\<lambda>x. added x \<or> x \<in> set members) ms)"

text \<open>The viewport expanded by the grid size, and the markers the spatial index returns
  for the position of a seed expanded by the grid size.\<close>

definition expandedViewport :: "gmap \<Rightarrow> clusterer \<Rightarrow> LatLngBounds \<Rightarrow> LatLngBounds" where
  "expandedViewport gm w mb =
     getExtendedBounds gm w (LatLngBounds_new (getSouthWest mb) (getNorthEast mb))"

definition inViewport :: "gmap \<Rightarrow> clusterer \<Rightarrow> LatLngBounds \<Rightarrow> marker_ref \<Rightarrow> bool" where
  "inViewport gm w mb m = bounds_contains (expandedViewport gm w mb) (position w m)"

definition catchment_search :: "gmap \<Rightarrow> clusterer \<Rightarrow> marker_ref \<Rightarrow> marker_ref list" where
  "catchment_search gm w m =
     map (\<lambda>nd. snd (snd nd))
       (rbush_search
          (boundsToArray (getExtendedBounds gm w (LatLngBounds_new (position w m) (position w m))))
          (tree w))"

text \<open>The active clusters a marker is a member of.\<close>

definition owners :: "clusterer \<Rightarrow> marker_ref \<Rightarrow> Cluster list" where
  "owners w m = filter (\<lambda>c. m \<in> set (cl_markers c)) (clusters w)"

text \<open>A pass changes the cluster list, the cluster counter and the flags and maps of the
  marker objects, and nothing else.\<close>

definition pass_frame :: "clusterer \<Rightarrow> clusterer \<Rightarrow> bool" where
  "pass_frame w w' =
     (w' = w\<lparr>clusters := clusters w', next_cluster := next_cluster w',
              isAdded := isAdded w', marker_map := marker_map w'\<rparr>)"

text \<open>The invariant of the engine: the members of the active clusters are flagged, no
  marker is a member of two active clusters, and a tracked marker that is flagged is a
  member of an active cluster.\<close>

definition engine_inv :: "clusterer \<Rightarrow> bool" where
  "engine_inv w =
     ((\<forall>c \<in> set (clusters w). \<forall>x \<in> set (cl_markers c). isAdded w x) \<and>
      (\<forall>c \<in> set (clusters w). \<forall>x \<in> set (cl_markers c). length (owners w x) \<le> 1) \<and>
      (\<forall>x \<in> set (markers w). isAdded w x \<longrightarrow> owners w x \<noteq> []))"

text \<open>An engine without clusters in which no tracked marker is flagged.\<close>

definition quiet :: "clusterer \<Rightarrow> bool" where
  "quiet w = (clusters w = [] \<and> (\<forall>m \<in> set (markers w). \<not> isAdded w m))"

text \<open>The states an engine reaches from its construction by the public operations other
  than \<open>removeCluster\<close>, under any map states, where no marker is handed to \<open>addMarker\<close>
  or \<open>addMarkers\<close> while it is a member of an active cluster.\<close>

inductive reachable :: "clusterer \<Rightarrow> bool" where
  r_init: "reachable (MarkerClusterer_init mp h opts)"
| r_onAdd: "reachable w \<Longrightarrow> reachable (state_of (onAdd gm w))"
| r_addMarker: "reachable w \<Longrightarrow> owners w marker = [] \<Longrightarrow>
     reachable (state_of (addMarker gm w marker nodraw))"
| r_addMarkers: "reachable w \<Longrightarrow> list_all (\<lambda>m. owners w m = []) ms \<Longrightarrow>
     reachable (state_of (addMarkers gm w ms nodraw))"
| r_removeMarker: "reachable w \<Longrightarrow> reachable (state_of (removeMarker gm w marker nodraw))"
| r_removeMarkers: "reachable w \<Longrightarrow> reachable (state_of (removeMarkers gm w ms nodraw))"
| r_redraw: "reachable w \<Longrightarrow> reachable (state_of (redraw gm w))"
| r_repaint: "reachable w \<Longrightarrow> reachable (state_of (repaint gm w))"
| r_resetViewport: "reachable w \<Longrightarrow> reachable (resetViewport reset w)"
| r_clearMarkers: "reachable w \<Longrightarrow> reachable (state_of (clearMarkers gm w nodraw))"

code_pred reachable .

section \<open>Callers and example configurations\<close>

text \<open>A caller that adds a list of markers to one cluster, one after the other.\<close>

definition add_sequence ::
  "gmap \<Rightarrow> marker_ref list \<Rightarrow> Cluster \<times> clusterer \<Rightarrow> Cluster \<times> clusterer" where
  "add_sequence gm ms cw = fold (\<lambda>m cw. snd (Cluster_addMarker gm (snd cw) (fst cw) m)) ms cw"

text \<open>A map at zoom \<open>z\<close> showing latitudes and longitudes from -10 to 10, one pixel per
  degree; marker \<open>m\<close> lies at \<open>(0, 2 m)\<close>, is not attached to a map and not flagged.\<close>

definition ex_gmap :: "real \<Rightarrow> gmap" where
  "ex_gmap z =
     \<lparr>getBounds = Some (LatLngBounds_new \<lparr>lat = - 10, lng = - 10\<rparr> \<lparr>lat = 10, lng = 10\<rparr>),
      getZoom = z,
      fromLatLngToDivPixel = (\<lambda>p. (lng p, - lat p)),
      fromDivPixelToLatLng = (\<lambda>q. \<lparr>lat = - snd q, lng = fst q\<rparr>)\<rparr>"

definition ex_heap :: marker_heap where
  "ex_heap =
     \<lparr>h_position = (\<lambda>m. \<lparr>lat = 0, lng = 2 * real m\<rparr>),
      h_isAdded = (\<lambda>m. False), h_map = (\<lambda>m. None)\<rparr>"

text \<open>Options: a grid of two pixels, a zoom cap of 10, average-centre mode and a minimum
  cluster size of \<open>k\<close>.\<close>

definition ex_options :: "real \<Rightarrow> options" where
  "ex_options k =
     \<lparr>o_gridSize = Some 2, o_maxZoom = Some 10, o_zoomOnClick = None,
      o_averageCenter = Some True, o_minimumClusterSize = Some k,
      o_isClusterable = None, o_iconGenerator = None,
      o_width = None, o_height = None, o_anchor = None\<rparr>"

definition ex_engine :: "real \<Rightarrow> clusterer" where
  "ex_engine k = MarkerClusterer_init 0 ex_heap (ex_options k)"

text \<open>The example map before it has bounds.\<close>

definition ex_gmap_unset :: gmap where
  "ex_gmap_unset = (ex_gmap 5)\<lparr>getBounds := None\<rparr>"

text \<open>The engine with minimum cluster size 2, mounted, with the markers 0, 1, 2 and 7
  registered and indexed but not yet clustered (marker 7 lies outside the expanded
  viewport); and the same engine after a pass at zoom 5.\<close>

definition ex_loaded :: clusterer where
  "ex_loaded = state_of (addMarkers (ex_gmap 5) (state_of (onAdd (ex_gmap 5) (ex_engine 2))) [0, 1, 2, 7] True)"

definition ex_clustered :: clusterer where
  "ex_clustered = state_of (redraw (ex_gmap 5) ex_loaded)"

text \<open>The engine before it is mounted, after \<open>addMarkers\<close> of the markers 0, 1, 2 and 7
  with a redraw requested.\<close>

definition ex_unmounted :: clusterer where
  "ex_unmounted = state_of (addMarkers (ex_gmap 5) (ex_engine 2) [0, 1, 2, 7] False)"

text \<open>The mounted engine after \<open>addMarker\<close> of marker 0, which runs a pass.\<close>

definition ex_single :: clusterer where
  "ex_single = state_of (addMarker (ex_gmap 5) (state_of (onAdd (ex_gmap 5) (ex_engine 2))) 0 False)"

text \<open>The same engine after a second \<open>addMarker\<close> of marker 0; and the clustered engine
  after \<open>removeMarker\<close> of marker 1.\<close>

definition ex_double :: clusterer where
  "ex_double = state_of (addMarker (ex_gmap 5) ex_single 0 False)"

definition ex_removed :: clusterer where
  "ex_removed = state_of (removeMarker (ex_gmap 5) ex_clustered 1 False)"

text \<open>Options in which every number is zero and every boolean false.\<close>

definition ex_falsy_options :: options where
  "ex_falsy_options =
     \<lparr>o_gridSize = Some 0, o_maxZoom = Some 0, o_zoomOnClick = Some False,
      o_averageCenter = Some False, o_minimumClusterSize = Some 0,
      o_isClusterable = None, o_iconGenerator = None,
      o_width = Some 0, o_height = Some 0, o_anchor = Some MarkerClusterer_TOP_LEFT\<rparr>"

section \<open>Properties of a cluster\<close>

lemma setMap_fields [simp]:
  "marker_map (setMap m v w) = (marker_map w)(m := v)"
  "isAdded (setMap m v w) = isAdded w"
  "position (setMap m v w) = position w"
  "markers (setMap m v w) = markers w"
  "clusters (setMap m v w) = clusters w"
  "tree (setMap m v w) = tree w"
  "ready (setMap m v w) = ready w"
  "gridSize (setMap m v w) = gridSize w"
  "maxZoom (setMap m v w) = maxZoom w"
  "isClusterable (setMap m v w) = isClusterable w"
  "next_cluster (setMap m v w) = next_cluster w"
  by (simp_all add: setMap_def)

lemma fold_setMap:
  "fold (\<lambda>m. setMap m v) ms w = w\<lparr>marker_map := (\<lambda>x. if x \<in> set ms then v else marker_map w x)\<rparr>"
proof (induction ms arbitrary: w)
  case Nil
  then show ?case by simp
next
  case (Cons a ms)
  have "fold (\<lambda>m. setMap m v) (a # ms) w = fold (\<lambda>m. setMap m v) ms (setMap a v w)"
    by simp
  also have "\<dots> = (setMap a v w)\<lparr>marker_map :=
      (\<lambda>x. if x \<in> set ms then v else marker_map (setMap a v w) x)\<rparr>"
    by (rule Cons.IH)
  also have "(\<lambda>x. if x \<in> set ms then v else marker_map (setMap a v w) x) =
        (\<lambda>x. if x \<in> set (a # ms) then v else marker_map w x)"
    by (rule ext) simp
  finally show ?case by (simp add: setMap_def)
qed

lemma set_isAdded_fields [simp]:
  "isAdded (set_isAdded m b w) = (isAdded w)(m := b)"
  "marker_map (set_isAdded m b w) = marker_map w"
  "position (set_isAdded m b w) = position w"
  "markers (set_isAdded m b w) = markers w"
  "clusters (set_isAdded m b w) = clusters w"
  "tree (set_isAdded m b w) = tree w"
  "ready (set_isAdded m b w) = ready w"
  "gridSize (set_isAdded m b w) = gridSize w"
  "maxZoom (set_isAdded m b w) = maxZoom w"
  "isClusterable (set_isAdded m b w) = isClusterable w"
  "next_cluster (set_isAdded m b w) = next_cluster w"
  by (simp_all add: set_isAdded_def)

lemma aboveMaxZoom_frame [simp]:
  "aboveMaxZoom gm (w\<lparr>marker_map := mm\<rparr>) = aboveMaxZoom gm w"
  "aboveMaxZoom gm (w\<lparr>isAdded := ia\<rparr>) = aboveMaxZoom gm w"
  "aboveMaxZoom gm (setMap m v w) = aboveMaxZoom gm w"
  "aboveMaxZoom gm (set_isAdded m b w) = aboveMaxZoom gm w"
  by (simp_all add: aboveMaxZoom_def)

lemma getExtendedBounds_frame [simp]:
  "getExtendedBounds gm (w\<lparr>marker_map := mm\<rparr>) = getExtendedBounds gm w"
  "getExtendedBounds gm (w\<lparr>isAdded := ia\<rparr>) = getExtendedBounds gm w"
  by (rule ext, simp add: getExtendedBounds_def)+


lemma addMarker_center_fields [simp]:
  "cl_markers (addMarker_center gm w c m) = cl_markers c"
  "cl_id (addMarker_center gm w c m) = cl_id c"
  "cl_map (addMarker_center gm w c m) = cl_map c"
  "cl_minClusterSize (addMarker_center gm w c m) = cl_minClusterSize c"
  "cl_averageCenter (addMarker_center gm w c m) = cl_averageCenter c"
  "cl_gridSize (addMarker_center gm w c m) = cl_gridSize c"
  "clusterIcon (addMarker_center gm w c m) = clusterIcon c"
  by (simp_all add: addMarker_center_def calculateBounds_def Let_def split: option.splits)

lemma addMarker_visibility_frame:
  "addMarker_visibility c m w = w\<lparr>marker_map := marker_map (addMarker_visibility c m w)\<rparr>"
  by (simp add: addMarker_visibility_def Let_def fold_setMap setMap_def)

lemma updateIcon_frame:
  "updateIcon gm w c = (c\<lparr>clusterIcon := clusterIcon (fst (updateIcon gm w c))\<rparr>,
                        w\<lparr>marker_map := marker_map (snd (updateIcon gm w c))\<rparr>)"
  by (simp add: updateIcon_def fold_setMap)

lemma Cluster_addMarker_member:
  "m \<in> set (cl_markers c) \<Longrightarrow> Cluster_addMarker gm w c m = (False, c, w)"
  by (simp add: Cluster_addMarker_def isMarkerAlreadyAdded_def)

lemma Cluster_addMarker_new:
  assumes "m \<notin> set (cl_markers c)"
  shows "Cluster_addMarker gm w c m =
           (True,
            (addMarker_center gm w c m)\<lparr>cl_markers := cl_markers c @ [m],
               clusterIcon := clusterIcon (fst (snd (Cluster_addMarker gm w c m)))\<rparr>,
            w\<lparr>isAdded := (isAdded w)(m := True),
              marker_map := marker_map (snd (snd (Cluster_addMarker gm w c m)))\<rparr>)"
proof -
  let ?c1 = "(addMarker_center gm w c m)\<lparr>cl_markers := cl_markers c @ [m]\<rparr>"
  let ?w1 = "set_isAdded m True w"
  let ?w2 = "addMarker_visibility ?c1 m ?w1"
  have v: "?w2 = ?w1\<lparr>marker_map := marker_map ?w2\<rparr>"
    by (rule addMarker_visibility_frame)
  have u: "updateIcon gm ?w2 ?c1 =
      (?c1\<lparr>clusterIcon := clusterIcon (fst (updateIcon gm ?w2 ?c1))\<rparr>,
       ?w2\<lparr>marker_map := marker_map (snd (updateIcon gm ?w2 ?c1))\<rparr>)"
    by (rule updateIcon_frame)
  have r: "Cluster_addMarker gm w c m =
      (True, fst (updateIcon gm ?w2 ?c1), snd (updateIcon gm ?w2 ?c1))"
    using assms by (simp add: Cluster_addMarker_def isMarkerAlreadyAdded_def Let_def split: prod.splits)
  have w: "?w2\<lparr>marker_map := mm\<rparr> = w\<lparr>isAdded := (isAdded w)(m := True), marker_map := mm\<rparr>" for mm
    by (subst v) (simp add: set_isAdded_def)
  show ?thesis
    unfolding r by (subst u, subst u) (simp add: w)
qed

lemma Cluster_addMarker_position [simp]:
  "position (snd (snd (Cluster_addMarker gm w c m))) = position w"
proof (cases "m \<in> set (cl_markers c)")
  case True
  then show ?thesis by (simp add: Cluster_addMarker_member)
next
  case False
  show ?thesis by (subst Cluster_addMarker_new[OF False]) simp
qed

lemma Cluster_addMarker_center:
  "m \<notin> set (cl_markers c) \<Longrightarrow>
   cl_center (fst (snd (Cluster_addMarker gm w c m))) = cl_center (addMarker_center gm w c m)"
  "m \<notin> set (cl_markers c) \<Longrightarrow>
   cl_bounds (fst (snd (Cluster_addMarker gm w c m))) = cl_bounds (addMarker_center gm w c m)"
  "m \<notin> set (cl_markers c) \<Longrightarrow>
   cl_markers (fst (snd (Cluster_addMarker gm w c m))) = cl_markers c @ [m]"
  "m \<notin> set (cl_markers c) \<Longrightarrow>
   cl_averageCenter (fst (snd (Cluster_addMarker gm w c m))) = cl_averageCenter c"
  by (subst Cluster_addMarker_new, assumption, simp)+

lemma addMarker_center_first:
  "cl_center c = None \<Longrightarrow> cl_center (addMarker_center gm w c m) = Some (position w m)"
  by (simp add: addMarker_center_def calculateBounds_def)

lemma addMarker_center_average:
  "cl_center c = Some ctr \<Longrightarrow> cl_averageCenter c \<Longrightarrow>
   cl_center (addMarker_center gm w c m) =
     Some \<lparr>lat = (lat ctr * real (length (cl_markers c)) + lat (position w m)) / (real (length (cl_markers c)) + 1),
           lng = (lng ctr * real (length (cl_markers c)) + lng (position w m)) / (real (length (cl_markers c)) + 1)\<rparr>"
  by (simp add: addMarker_center_def calculateBounds_def Let_def add.commute)

lemma addMarker_center_bounds:
  "cl_center (addMarker_center gm w c m) \<noteq> cl_center c \<Longrightarrow>
   cl_bounds (addMarker_center gm w c m) =
     map_option (\<lambda>ctr. getExtendedBounds gm w (LatLngBounds_new ctr ctr)) (cl_center (addMarker_center gm w c m))"
  by (auto simp: addMarker_center_def calculateBounds_def Let_def split: option.splits if_splits)

text \<open>Unfolding the definitions of the example configurations evaluates an operation on them.\<close>

lemmas ex_defs = add_sequence_def Cluster_addMarker_def isMarkerAlreadyAdded_def addMarker_center_def
      addMarker_visibility_def updateIcon_def aboveMaxZoom_def calculateBounds_def Cluster_new_def
      ClusterIcon_new_def ex_engine_def ex_gmap_def ex_heap_def ex_options_def MarkerClusterer_init_def
      or_num_def or_null_def or_bool_def or_fun_def truthy_num_def truthy_nat_def set_isAdded_def setMap_def
      Let_def hide_def show_icon_def getExtendedBounds_def LatLngBounds_new_def bounds_extend_def

text \<open>
  Claim C3, as amended. For a cluster with \<open>minimumClusterSize = 3\<close>, \<open>Cluster.addMarker\<close>
  returns false and changes nothing when the marker is already a member, and otherwise
  returns true and appends the marker. While the zoom does not exceed a configured
  \<open>maxZoom\<close>: an add that leaves fewer than 3 members attaches the new marker to the map
  and the icon is hidden; the add that brings the count to 3 detaches all three members
  and shows the icon; every later add detaches the new marker and the icon is shown.
  While the zoom exceeds \<open>maxZoom\<close>, every add leaves all members attached to the map and
  does not touch the icon.
\<close>

theorem Cluster_addMarker_minimum_size:
  "cl_minClusterSize c = 3 \<Longrightarrow>
   (m \<in> set (cl_markers c) \<longrightarrow> Cluster_addMarker gm w c m = (False, c, w)) \<and>
   (m \<notin> set (cl_markers c) \<longrightarrow>
      (case Cluster_addMarker gm w c m of (b, c', w') \<Rightarrow>
         b \<and> cl_markers c' = cl_markers c @ [m] \<and>
         (aboveMaxZoom gm w \<longrightarrow>
            (\<forall>x \<in> set (cl_markers c'). marker_map w' x = Some (cl_map c)) \<and>
            clusterIcon c' = clusterIcon c) \<and>
         (\<not> aboveMaxZoom gm w \<longrightarrow>
            (length (cl_markers c') < 3 \<longrightarrow>
               marker_map w' m = Some (cl_map c) \<and> \<not> icon_visible (clusterIcon c')) \<and>
            (length (cl_markers c') = 3 \<longrightarrow>
               (\<forall>x \<in> set (cl_markers c'). marker_map w' x = None) \<and> icon_visible (clusterIcon c')) \<and>
            (length (cl_markers c') > 3 \<longrightarrow>
               marker_map w' m = None \<and> icon_visible (clusterIcon c')))))"
  by (auto simp: Cluster_addMarker_def isMarkerAlreadyAdded_def Let_def addMarker_visibility_def
        updateIcon_def fold_setMap hide_def show_icon_def setMap_def split: prod.splits if_splits)

theorem Cluster_addMarker_minimum_size_witness:
  "cl_minClusterSize (fst (add_sequence (ex_gmap 5) [0, 1] (Cluster_new (ex_engine 3) 0, ex_engine 3))) = 3 \<and>
   2 \<notin> set (cl_markers (fst (add_sequence (ex_gmap 5) [0, 1] (Cluster_new (ex_engine 3) 0, ex_engine 3)))) \<and>
   \<not> aboveMaxZoom (ex_gmap 5) (snd (add_sequence (ex_gmap 5) [0, 1] (Cluster_new (ex_engine 3) 0, ex_engine 3))) \<and>
   cl_markers (fst (add_sequence (ex_gmap 5) [0, 1, 2] (Cluster_new (ex_engine 3) 0, ex_engine 3))) = [0, 1, 2] \<and>
   marker_map (snd (add_sequence (ex_gmap 5) [0, 1, 2] (Cluster_new (ex_engine 3) 0, ex_engine 3))) 0 = None \<and>
   marker_map (snd (add_sequence (ex_gmap 5) [0, 1, 2] (Cluster_new (ex_engine 3) 0, ex_engine 3))) 1 = None \<and>
   marker_map (snd (add_sequence (ex_gmap 5) [0, 1, 2] (Cluster_new (ex_engine 3) 0, ex_engine 3))) 2 = None \<and>
   icon_visible (clusterIcon (fst (add_sequence (ex_gmap 5) [0, 1, 2] (Cluster_new (ex_engine 3) 0, ex_engine 3))))"
  using Cluster_addMarker_minimum_size[of
      "fst (add_sequence (ex_gmap 5) [0, 1] (Cluster_new (ex_engine 3) 0, ex_engine 3))" 2 "ex_gmap 5"
      "snd (add_sequence (ex_gmap 5) [0, 1] (Cluster_new (ex_engine 3) 0, ex_engine 3))"]
  by (simp add: ex_defs)

text \<open>
  Claim C3 as stated fails above the zoom cap: with \<open>maxZoom = 10\<close> at zoom 12, the third
  marker added to a cluster of minimum size 3 leaves the members attached to map 0 and
  the icon hidden.
\<close>

theorem Cluster_addMarker_minimum_size_counterexample:
  "cl_minClusterSize (Cluster_new (ex_engine 3) 0) = 3 \<and>
   cl_markers (fst (add_sequence (ex_gmap 12) [0, 1, 2] (Cluster_new (ex_engine 3) 0, ex_engine 3))) = [0, 1, 2] \<and>
   marker_map (snd (add_sequence (ex_gmap 12) [0, 1, 2] (Cluster_new (ex_engine 3) 0, ex_engine 3))) 0 = Some 0 \<and>
   marker_map (snd (add_sequence (ex_gmap 12) [0, 1, 2] (Cluster_new (ex_engine 3) 0, ex_engine 3))) 2 = Some 0 \<and>
   \<not> icon_visible (clusterIcon (fst (add_sequence (ex_gmap 12) [0, 1, 2] (Cluster_new (ex_engine 3) 0, ex_engine 3))))"
  by (simp add: ex_defs)

text \<open>
  Claim C5. In average-centre mode, adding markers at (0,0), (0,2), (0,4) to a new
  cluster gives the centres (0,0), (0,1), (0,2); the first add to a cluster sets the centre
  to the position of the marker; an add of a new member to a cluster in
  average-centre mode that has a centre moves the centre to
  \<open>(oldCenter * (n - 1) + position) / n\<close>, \<open>n\<close> the member count after the add; and
  whenever an add changes the centre, the bounds are those of the new centre extended by
  the grid size.
\<close>

theorem average_center_running_mean:
  "(averageCenter w \<and> distinct [m1, m2, m3] \<and> position w m1 = \<lparr>lat = 0, lng = 0\<rparr> \<and>
    position w m2 = \<lparr>lat = 0, lng = 2\<rparr> \<and> position w m3 = \<lparr>lat = 0, lng = 4\<rparr> \<longrightarrow>
      cl_center (fst (add_sequence gm [m1] (Cluster_new w i, w))) = Some \<lparr>lat = 0, lng = 0\<rparr> \<and>
      cl_center (fst (add_sequence gm [m1, m2] (Cluster_new w i, w))) = Some \<lparr>lat = 0, lng = 1\<rparr> \<and>
      cl_center (fst (add_sequence gm [m1, m2, m3] (Cluster_new w i, w))) = Some \<lparr>lat = 0, lng = 2\<rparr>) \<and>
   (m \<notin> set (cl_markers c) \<and> cl_center c = None \<longrightarrow>
      cl_center (fst (snd (Cluster_addMarker gm w c m))) = Some (position w m)) \<and>
   (m \<notin> set (cl_markers c) \<and> cl_averageCenter c \<and> cl_center c = Some ctr \<longrightarrow>
      (case Cluster_addMarker gm w c m of (b, c', w') \<Rightarrow>
         cl_center c' =
           Some \<lparr>lat = (lat ctr * (real (length (cl_markers c')) - 1) + lat (position w m))
                        / real (length (cl_markers c')),
                 lng = (lng ctr * (real (length (cl_markers c')) - 1) + lng (position w m))
                        / real (length (cl_markers c'))\<rparr>)) \<and>
   (case Cluster_addMarker gm w c m of (b, c', w') \<Rightarrow>
      cl_center c' \<noteq> cl_center c \<longrightarrow>
      cl_bounds c' =
        map_option (\<lambda>ctr'. getExtendedBounds gm w (LatLngBounds_new ctr' ctr')) (cl_center c'))"
proof (intro conjI impI)
  assume a: "averageCenter w \<and> distinct [m1, m2, m3] \<and> position w m1 = \<lparr>lat = 0, lng = 0\<rparr> \<and>
    position w m2 = \<lparr>lat = 0, lng = 2\<rparr> \<and> position w m3 = \<lparr>lat = 0, lng = 4\<rparr>"
  let ?c0 = "Cluster_new w i"
  let ?r1 = "Cluster_addMarker gm w ?c0 m1"
  let ?c1 = "fst (snd ?r1)" and ?w1 = "snd (snd ?r1)"
  let ?r2 = "Cluster_addMarker gm ?w1 ?c1 m2"
  let ?c2 = "fst (snd ?r2)" and ?w2 = "snd (snd ?r2)"
  let ?r3 = "Cluster_addMarker gm ?w2 ?c2 m3"
  let ?c3 = "fst (snd ?r3)"
  have c0: "cl_markers ?c0 = []" "cl_center ?c0 = None" "cl_averageCenter ?c0"
    using a by (simp_all add: Cluster_new_def Let_def)
  have n1: "m1 \<notin> set (cl_markers ?c0)" by (simp add: c0)
  have c1: "cl_markers ?c1 = [m1]" "cl_center ?c1 = Some \<lparr>lat = 0, lng = 0\<rparr>" "cl_averageCenter ?c1"
    using a by (simp_all add: Cluster_addMarker_center[OF n1] c0 addMarker_center_first)
  have n2: "m2 \<notin> set (cl_markers ?c1)" using a by (simp add: c1)
  have c2: "cl_markers ?c2 = [m1, m2]" "cl_center ?c2 = Some \<lparr>lat = 0, lng = 1\<rparr>" "cl_averageCenter ?c2"
    using a by (simp_all add: Cluster_addMarker_center[OF n2] c1 addMarker_center_average)
  have n3: "m3 \<notin> set (cl_markers ?c2)" using a by (simp add: c2)
  have c3: "cl_center ?c3 = Some \<lparr>lat = 0, lng = 2\<rparr>"
    using a by (simp add: Cluster_addMarker_center[OF n3] c2 addMarker_center_average)
  show "cl_center (fst (add_sequence gm [m1] (Cluster_new w i, w))) = Some \<lparr>lat = 0, lng = 0\<rparr>"
    using c1 by (simp add: add_sequence_def)
  show "cl_center (fst (add_sequence gm [m1, m2] (Cluster_new w i, w))) = Some \<lparr>lat = 0, lng = 1\<rparr>"
    using c2 by (simp add: add_sequence_def)
  show "cl_center (fst (add_sequence gm [m1, m2, m3] (Cluster_new w i, w))) = Some \<lparr>lat = 0, lng = 2\<rparr>"
    using c3 by (simp add: add_sequence_def)
next
  assume "m \<notin> set (cl_markers c) \<and> cl_center c = None"
  then show "cl_center (fst (snd (Cluster_addMarker gm w c m))) = Some (position w m)"
    by (simp add: Cluster_addMarker_center addMarker_center_first)
next
  assume b: "m \<notin> set (cl_markers c) \<and> cl_averageCenter c \<and> cl_center c = Some ctr"
  then have n: "m \<notin> set (cl_markers c)" by simp
  show "case Cluster_addMarker gm w c m of (b, c', w') \<Rightarrow>
         cl_center c' =
           Some \<lparr>lat = (lat ctr * (real (length (cl_markers c')) - 1) + lat (position w m))
                        / real (length (cl_markers c')),
                 lng = (lng ctr * (real (length (cl_markers c')) - 1) + lng (position w m))
                        / real (length (cl_markers c'))\<rparr>"
    using b Cluster_addMarker_center[OF n, of gm w] addMarker_center_average[of c ctr gm w m]
    by (simp add: split_beta add.commute)
next
  show "case Cluster_addMarker gm w c m of (b, c', w') \<Rightarrow>
      cl_center c' \<noteq> cl_center c \<longrightarrow>
      cl_bounds c' =
        map_option (\<lambda>ctr'. getExtendedBounds gm w (LatLngBounds_new ctr' ctr')) (cl_center c')"
  proof (cases "m \<in> set (cl_markers c)")
    case True
    then show ?thesis by (simp add: Cluster_addMarker_member)
  next
    case False
    show ?thesis
      using Cluster_addMarker_center[OF False, of gm w] addMarker_center_bounds[of gm w c m]
      by (simp add: split_beta)
  qed
qed

theorem average_center_running_mean_witness:
  "averageCenter (ex_engine 3) \<and>
   cl_center (fst (add_sequence (ex_gmap 5) [0, 1, 2] (Cluster_new (ex_engine 3) 0, ex_engine 3)))
     = Some \<lparr>lat = 0, lng = 2\<rparr> \<and>
   1 \<notin> set (cl_markers (fst (add_sequence (ex_gmap 5) [0] (Cluster_new (ex_engine 3) 0, ex_engine 3)))) \<and>
   cl_averageCenter (fst (add_sequence (ex_gmap 5) [0] (Cluster_new (ex_engine 3) 0, ex_engine 3))) \<and>
   cl_center (fst (add_sequence (ex_gmap 5) [0] (Cluster_new (ex_engine 3) 0, ex_engine 3)))
     = Some \<lparr>lat = 0, lng = 0\<rparr> \<and>
   cl_center (fst (snd (Cluster_addMarker (ex_gmap 5)
       (snd (add_sequence (ex_gmap 5) [0] (Cluster_new (ex_engine 3) 0, ex_engine 3)))
       (fst (add_sequence (ex_gmap 5) [0] (Cluster_new (ex_engine 3) 0, ex_engine 3))) 1)))
     = Some \<lparr>lat = 0, lng = 1\<rparr>"
  using average_center_running_mean[of "ex_engine 3" 0 1 2 "ex_gmap 5" 0 1
      "fst (add_sequence (ex_gmap 5) [0] (Cluster_new (ex_engine 3) 0, ex_engine 3))"
      "\<lparr>lat = 0, lng = 0\<rparr>"]
  by (simp add: ex_defs)

text \<open>
  Claim C7, as amended. When a zoom cap is set and the zoom exceeds it, \<open>updateIcon\<close>
  attaches every member to the map and leaves the icon as it was (so no icon is shown
  when none was showing before). Otherwise, below the minimum cluster size the icon is
  hidden; else the icon is placed at the centre of the cluster and shown.
\<close>

theorem updateIcon_presentation:
  "updateIcon gm w c = (c', w') \<Longrightarrow>
     (aboveMaxZoom gm w \<longrightarrow>
        (\<forall>m \<in> set (cl_markers c). marker_map w' m = Some (cl_map c)) \<and>
        clusterIcon c' = clusterIcon c) \<and>
     (\<not> aboveMaxZoom gm w \<and> real (length (cl_markers c)) < cl_minClusterSize c \<longrightarrow>
        \<not> icon_visible (clusterIcon c') \<and> w' = w) \<and>
     (\<not> aboveMaxZoom gm w \<and> \<not> real (length (cl_markers c)) < cl_minClusterSize c \<longrightarrow>
        icon_center (clusterIcon c') = cl_center c \<and> icon_visible (clusterIcon c') \<and> w' = w)"
  by (auto simp: updateIcon_def fold_setMap hide_def show_icon_def split: if_splits)

theorem updateIcon_presentation_witness:
  "aboveMaxZoom (ex_gmap 12) (snd (add_sequence (ex_gmap 5) [0, 1] (Cluster_new (ex_engine 2) 0, ex_engine 2))) \<and>
   cl_markers (fst (add_sequence (ex_gmap 5) [0, 1] (Cluster_new (ex_engine 2) 0, ex_engine 2))) = [0, 1] \<and>
   marker_map (snd (add_sequence (ex_gmap 5) [0, 1] (Cluster_new (ex_engine 2) 0, ex_engine 2))) 0 = None \<and>
   marker_map (snd (add_sequence (ex_gmap 5) [0, 1] (Cluster_new (ex_engine 2) 0, ex_engine 2))) 1 = None \<and>
   marker_map (snd (updateIcon (ex_gmap 12)
      (snd (add_sequence (ex_gmap 5) [0, 1] (Cluster_new (ex_engine 2) 0, ex_engine 2)))
      (fst (add_sequence (ex_gmap 5) [0, 1] (Cluster_new (ex_engine 2) 0, ex_engine 2))))) 0 = Some 0 \<and>
   marker_map (snd (updateIcon (ex_gmap 12)
      (snd (add_sequence (ex_gmap 5) [0, 1] (Cluster_new (ex_engine 2) 0, ex_engine 2)))
      (fst (add_sequence (ex_gmap 5) [0, 1] (Cluster_new (ex_engine 2) 0, ex_engine 2))))) 1 = Some 0 \<and>
   clusterIcon (fst (updateIcon (ex_gmap 12)
      (snd (add_sequence (ex_gmap 5) [0, 1] (Cluster_new (ex_engine 2) 0, ex_engine 2)))
      (fst (add_sequence (ex_gmap 5) [0, 1] (Cluster_new (ex_engine 2) 0, ex_engine 2))))) =
     clusterIcon (fst (add_sequence (ex_gmap 5) [0, 1] (Cluster_new (ex_engine 2) 0, ex_engine 2))) \<and>
   \<not> aboveMaxZoom (ex_gmap 5) (snd (add_sequence (ex_gmap 5) [0] (Cluster_new (ex_engine 2) 0, ex_engine 2))) \<and>
   cl_markers (fst (add_sequence (ex_gmap 5) [0] (Cluster_new (ex_engine 2) 0, ex_engine 2))) = [0] \<and>
   \<not> icon_visible (clusterIcon (fst (updateIcon (ex_gmap 5)
      (snd (add_sequence (ex_gmap 5) [0] (Cluster_new (ex_engine 2) 0, ex_engine 2)))
      (fst (add_sequence (ex_gmap 5) [0] (Cluster_new (ex_engine 2) 0, ex_engine 2)))))) \<and>
   icon_visible (clusterIcon (fst (updateIcon (ex_gmap 5)
      (snd (add_sequence (ex_gmap 5) [0, 1] (Cluster_new (ex_engine 2) 0, ex_engine 2)))
      (fst (add_sequence (ex_gmap 5) [0, 1] (Cluster_new (ex_engine 2) 0, ex_engine 2)))))) \<and>
   icon_center (clusterIcon (fst (updateIcon (ex_gmap 5)
      (snd (add_sequence (ex_gmap 5) [0, 1] (Cluster_new (ex_engine 2) 0, ex_engine 2)))
      (fst (add_sequence (ex_gmap 5) [0, 1] (Cluster_new (ex_engine 2) 0, ex_engine 2)))))) =
     Some \<lparr>lat = 0, lng = 1\<rparr>"
proof -
  define c1 where "c1 = fst (add_sequence (ex_gmap 5) [0] (Cluster_new (ex_engine 2) 0, ex_engine 2))"
  define w1 where "w1 = snd (add_sequence (ex_gmap 5) [0] (Cluster_new (ex_engine 2) 0, ex_engine 2))"
  define c2 where "c2 = fst (add_sequence (ex_gmap 5) [0, 1] (Cluster_new (ex_engine 2) 0, ex_engine 2))"
  define w2 where "w2 = snd (add_sequence (ex_gmap 5) [0, 1] (Cluster_new (ex_engine 2) 0, ex_engine 2))"
  have f1: "\<not> aboveMaxZoom (ex_gmap 5) w1" "cl_markers c1 = [0]" "cl_minClusterSize c1 = 2"
    by (simp_all add: c1_def w1_def ex_defs)
  have f2: "aboveMaxZoom (ex_gmap 12) w2" "\<not> aboveMaxZoom (ex_gmap 5) w2" "cl_markers c2 = [0, 1]"
    "cl_minClusterSize c2 = 2" "cl_map c2 = 0" "cl_center c2 = Some \<lparr>lat = 0, lng = 1\<rparr>"
    "marker_map w2 0 = None" "marker_map w2 1 = None"
    by (simp_all add: c2_def w2_def ex_defs)
  have above: "marker_map (snd (updateIcon (ex_gmap 12) w2 c2)) 0 = Some 0"
    "marker_map (snd (updateIcon (ex_gmap 12) w2 c2)) 1 = Some 0"
    "clusterIcon (fst (updateIcon (ex_gmap 12) w2 c2)) = clusterIcon c2"
    using updateIcon_presentation[of "ex_gmap 12" w2 c2 "fst (updateIcon (ex_gmap 12) w2 c2)"
        "snd (updateIcon (ex_gmap 12) w2 c2)"] f2
    by simp_all
  have small: "\<not> icon_visible (clusterIcon (fst (updateIcon (ex_gmap 5) w1 c1)))"
    using updateIcon_presentation[of "ex_gmap 5" w1 c1 "fst (updateIcon (ex_gmap 5) w1 c1)"
        "snd (updateIcon (ex_gmap 5) w1 c1)"] f1
    by simp
  have shown: "icon_visible (clusterIcon (fst (updateIcon (ex_gmap 5) w2 c2)))"
    "icon_center (clusterIcon (fst (updateIcon (ex_gmap 5) w2 c2))) = Some \<lparr>lat = 0, lng = 1\<rparr>"
    using updateIcon_presentation[of "ex_gmap 5" w2 c2 "fst (updateIcon (ex_gmap 5) w2 c2)"
        "snd (updateIcon (ex_gmap 5) w2 c2)"] f2
    by simp_all
  show ?thesis
    using f1(1,2) f2(1,3,7,8) above small shown
    unfolding c1_def w1_def c2_def w2_def by (intro conjI)
qed

text \<open>
  Claim C7 as stated fails for a cluster whose icon is already showing: two markers added
  at zoom 5 (minimum size 2) show the icon, and \<open>updateIcon\<close> at zoom 12, above the cap of
  10, leaves it showing.
\<close>

theorem updateIcon_presentation_counterexample:
  "aboveMaxZoom (ex_gmap 12) (snd (add_sequence (ex_gmap 5) [0, 1] (Cluster_new (ex_engine 2) 0, ex_engine 2))) \<and>
   icon_visible (clusterIcon (fst (updateIcon (ex_gmap 12)
      (snd (add_sequence (ex_gmap 5) [0, 1] (Cluster_new (ex_engine 2) 0, ex_engine 2)))
      (fst (add_sequence (ex_gmap 5) [0, 1] (Cluster_new (ex_engine 2) 0, ex_engine 2))))))"
  by (simp add: ex_defs)

lemma pass_frame_refl [simp]: "pass_frame w w"
  by (simp add: pass_frame_def)

lemma pass_frameI:
  "w' = w\<lparr>clusters := c, next_cluster := n, isAdded := i, marker_map := mm\<rparr> \<Longrightarrow> pass_frame w w'"
  by (simp add: pass_frame_def)

lemma pass_frameE:
  assumes "pass_frame w w'"
  obtains c n i mm where "w' = w\<lparr>clusters := c, next_cluster := n, isAdded := i, marker_map := mm\<rparr>"
  using assms unfolding pass_frame_def by blast

lemma pass_frame_trans: "pass_frame w w1 \<Longrightarrow> pass_frame w1 w2 \<Longrightarrow> pass_frame w w2"
  by (elim pass_frameE) (simp add: pass_frame_def)

lemma pass_frame_fields:
  assumes "pass_frame w w'"
  shows "markers w' = markers w" "tree w' = tree w" "ready w' = ready w"
    "gridSize w' = gridSize w" "minClusterSize w' = minClusterSize w" "maxZoom w' = maxZoom w"
    "zoomOnClick w' = zoomOnClick w" "averageCenter w' = averageCenter w"
    "isClusterable w' = isClusterable w" "iconGenerator w' = iconGenerator w"
    "clusterWidth w' = clusterWidth w" "clusterHeight w' = clusterHeight w"
    "anchor w' = anchor w" "position w' = position w" "the_map w' = the_map w"
  using assms by (auto elim!: pass_frameE)

lemma getExtendedBounds_cong:
  "gridSize w' = gridSize w \<Longrightarrow> getExtendedBounds gm w' = getExtendedBounds gm w"
  by (rule ext) (simp add: getExtendedBounds_def)

lemma frame_derived:
  assumes "pass_frame w w'"
  shows "getExtendedBounds gm w' = getExtendedBounds gm w"
    "catchment_search gm w' = catchment_search gm w"
    "inViewport gm w' mb = inViewport gm w mb"
    "expandedViewport gm w' = expandedViewport gm w"
    "aboveMaxZoom gm w' = aboveMaxZoom gm w"
proof -
  show g: "getExtendedBounds gm w' = getExtendedBounds gm w"
    by (rule getExtendedBounds_cong) (simp add: pass_frame_fields[OF assms])
  show "catchment_search gm w' = catchment_search gm w"
    by (intro ext) (simp add: catchment_search_def g pass_frame_fields[OF assms])
  show e: "expandedViewport gm w' = expandedViewport gm w"
    by (intro ext) (simp add: expandedViewport_def g)
  show "inViewport gm w' mb = inViewport gm w mb"
    by (intro ext) (simp add: inViewport_def e pass_frame_fields[OF assms])
  show "aboveMaxZoom gm w' = aboveMaxZoom gm w"
    by (simp add: aboveMaxZoom_def pass_frame_fields[OF assms])
qed

lemma Cluster_addMarker_frame: "pass_frame w (snd (snd (Cluster_addMarker gm w c m)))"
proof (cases "m \<in> set (cl_markers c)")
  case True
  then show ?thesis by (simp add: Cluster_addMarker_member)
next
  case False
  show ?thesis
    by (subst Cluster_addMarker_new[OF False]) (simp add: pass_frame_def)
qed

lemma Cluster_addMarker_new_fields:
  assumes "m \<notin> set (cl_markers c)"
  shows "cl_markers (fst (snd (Cluster_addMarker gm w c m))) = cl_markers c @ [m]"
    "cl_id (fst (snd (Cluster_addMarker gm w c m))) = cl_id c"
    "isAdded (snd (snd (Cluster_addMarker gm w c m))) = (isAdded w)(m := True)"
    "clusters (snd (snd (Cluster_addMarker gm w c m))) = clusters w"
    "next_cluster (snd (snd (Cluster_addMarker gm w c m))) = next_cluster w"
  by (subst Cluster_addMarker_new[OF assms], simp)+

lemma absorb_node_skip:
  "isAdded w (snd (snd nd)) \<or> \<not> isClusterable w (snd (snd nd)) \<Longrightarrow>
   absorb_node gm nd (c, w) = (c, w)"
  by (auto simp: absorb_node_def Let_def)

lemma absorb_node_add:
  "\<not> isAdded w (snd (snd nd)) \<Longrightarrow> isClusterable w (snd (snd nd)) \<Longrightarrow>
   absorb_node gm nd (c, w) = snd (Cluster_addMarker gm w c (snd (snd nd)))"
  by (simp add: absorb_node_def Let_def split: prod.splits)

lemma absorb_fold:
  "\<forall>x \<in> set (cl_markers c). isAdded w x \<Longrightarrow>
   fold (absorb_node gm) nodes (c, w) = (c', w') \<Longrightarrow>
     cl_markers c' =
       cl_markers c @ absorb (isClusterable w) (isAdded w) (map (\<lambda>nd. snd (snd nd)) nodes) \<and>
     isAdded w' =
       (\<lambda>x. isAdded w x \<or>
            x \<in> set (absorb (isClusterable w) (isAdded w) (map (\<lambda>nd. snd (snd nd)) nodes))) \<and>
     pass_frame w w' \<and> clusters w' = clusters w \<and> next_cluster w' = next_cluster w \<and>
     cl_id c' = cl_id c"
proof (induction nodes arbitrary: c w)
  case Nil
  then show ?case by simp
next
  case (Cons nd nodes)
  let ?m = "snd (snd nd)"
  show ?case
  proof (cases "isAdded w ?m \<or> \<not> isClusterable w ?m")
    case True
    then have "fold (absorb_node gm) nodes (c, w) = (c', w')"
      using Cons.prems(2) by (simp add: absorb_node_skip)
    from Cons.IH[OF Cons.prems(1) this] True show ?thesis by auto
  next
    case False
    then have na: "\<not> isAdded w ?m" and el: "isClusterable w ?m" by auto
    from na Cons.prems(1) have nm: "?m \<notin> set (cl_markers c)" by auto
    let ?r = "Cluster_addMarker gm w c ?m"
    let ?c1 = "fst (snd ?r)" and ?w1 = "snd (snd ?r)"
    have f1: "fold (absorb_node gm) nodes (?c1, ?w1) = (c', w')"
      using Cons.prems(2) na el by (simp add: absorb_node_add)
    have fr: "pass_frame w ?w1" by (rule Cluster_addMarker_frame)
    note fs = Cluster_addMarker_new_fields[OF nm, of gm w]
    have inv1: "\<forall>x \<in> set (cl_markers ?c1). isAdded ?w1 x"
      using Cons.prems(1) by (simp add: fs)
    have ic: "isClusterable ?w1 = isClusterable w"
      by (simp add: pass_frame_fields[OF fr])
    note ih0 = Cons.IH[OF inv1 f1, unfolded ic fs]
    note ih1 = ih0[THEN conjunct1]
    note ih2 = ih0[THEN conjunct2, THEN conjunct1]
    note ih3 = ih0[THEN conjunct2, THEN conjunct2, THEN conjunct1]
    note ih4 = ih0[THEN conjunct2, THEN conjunct2, THEN conjunct2, THEN conjunct1]
    note ih5 = ih0[THEN conjunct2, THEN conjunct2, THEN conjunct2, THEN conjunct2, THEN conjunct1]
    note ih6 = ih0[THEN conjunct2, THEN conjunct2, THEN conjunct2, THEN conjunct2, THEN conjunct2]
    have a: "absorb (isClusterable w) (isAdded w) (map (\<lambda>nd. snd (snd nd)) (nd # nodes)) =
        ?m # absorb (isClusterable w) ((isAdded w)(?m := True)) (map (\<lambda>nd. snd (snd nd)) nodes)"
      using na el by simp
    have "isAdded w' = (\<lambda>x. isAdded w x \<or>
            x \<in> set (absorb (isClusterable w) (isAdded w) (map (\<lambda>nd. snd (snd nd)) (nd # nodes))))"
      unfolding a ih2 by (rule ext) auto
    moreover have "cl_markers c' = cl_markers c @
        absorb (isClusterable w) (isAdded w) (map (\<lambda>nd. snd (snd nd)) (nd # nodes))"
      unfolding a ih1 by simp
    moreover have "pass_frame w w'" using fr ih3 by (rule pass_frame_trans)
    ultimately show ?thesis using ih4 ih5 ih6 by (intro conjI)
  qed
qed

lemma body_skip:
  "isAdded w m \<or> \<not> bounds_contains mb (position w m) \<or> \<not> isClusterable w m \<Longrightarrow>
   createClusters_body gm mb m w = w"
  by (auto simp: createClusters_body_def Let_def)

lemma Cluster_new_fields [simp]:
  "cl_markers (Cluster_new w i) = []" "cl_id (Cluster_new w i) = i"
  "cl_center (Cluster_new w i) = None" "cl_averageCenter (Cluster_new w i) = averageCenter w"
  "cl_minClusterSize (Cluster_new w i) = minClusterSize w" "cl_map (Cluster_new w i) = the_map w"
  by (simp_all add: Cluster_new_def Let_def)

lemma body_seed:
  assumes "\<not> isAdded w m" "bounds_contains mb (position w m)" "isClusterable w m"
  shows "\<exists>c. clusters (createClusters_body gm mb m w) = clusters w @ [c] \<and>
     cl_markers c = m # absorb (isClusterable w) ((isAdded w)(m := True)) (catchment_search gm w m) \<and>
     isAdded (createClusters_body gm mb m w) = (\<lambda>x. isAdded w x \<or> x \<in> set (cl_markers c)) \<and>
     pass_frame w (createClusters_body gm mb m w) \<and>
     cl_id c = next_cluster w \<and>
     next_cluster (createClusters_body gm mb m w) = Suc (next_cluster w)"
proof -
  let ?w0 = "w\<lparr>next_cluster := Suc (next_cluster w)\<rparr>"
  let ?c0 = "Cluster_new w (next_cluster w)"
  define c1 where "c1 = fst (snd (Cluster_addMarker gm ?w0 ?c0 m))"
  define w1 where "w1 = snd (snd (Cluster_addMarker gm ?w0 ?c0 m))"
  define nodes where "nodes = rbush_search (boundsToArray (getExtendedBounds gm w1
      (LatLngBounds_new (position w m) (position w m)))) (tree w1)"
  define c2 where "c2 = fst (fold (absorb_node gm) nodes (c1, w1))"
  define w2 where "w2 = snd (fold (absorb_node gm) nodes (c1, w1))"
  have nm: "m \<notin> set (cl_markers ?c0)" by simp
  note fs = Cluster_addMarker_new_fields[OF nm, of gm ?w0, folded c1_def w1_def]
  have f0: "pass_frame w ?w0" by (simp add: pass_frame_def)
  have f01: "pass_frame ?w0 w1" unfolding w1_def by (rule Cluster_addMarker_frame)
  have f1: "pass_frame w w1" using f0 f01 by (rule pass_frame_trans)
  have body: "createClusters_body gm mb m w = w2\<lparr>clusters := clusters w2 @ [c2]\<rparr>"
    using assms
    by (simp add: createClusters_body_def Let_def c1_def w1_def nodes_def c2_def w2_def
        split: prod.splits)
  have inv1: "\<forall>x \<in> set (cl_markers c1). isAdded w1 x" by (simp add: fs)
  have "fold (absorb_node gm) nodes (c1, w1) = (c2, w2)" by (simp add: c2_def w2_def)
  note ab0 = absorb_fold[OF inv1 this]
  have cs: "map (\<lambda>nd. snd (snd nd)) nodes = catchment_search gm w m"
    by (simp add: nodes_def catchment_search_def frame_derived[OF f1] pass_frame_fields[OF f1])
  have ic1: "isClusterable w1 = isClusterable w" by (simp add: pass_frame_fields[OF f1])
  have ia1: "isAdded w1 = (isAdded w)(m := True)" by (simp add: fs)
  have cm1: "cl_markers c1 = [m]" by (simp add: fs)
  have cl1: "clusters w1 = clusters w" by (simp add: fs)
  have nc1: "next_cluster w1 = Suc (next_cluster w)" by (simp add: fs)
  have id1: "cl_id c1 = next_cluster w" by (simp add: fs)
  note ab = ab0[unfolded cs ic1 ia1 cm1 cl1 nc1 id1]
  note ab1 = ab[THEN conjunct1]
  note ab2 = ab[THEN conjunct2, THEN conjunct1]
  note ab3 = ab[THEN conjunct2, THEN conjunct2, THEN conjunct1]
  note ab4 = ab[THEN conjunct2, THEN conjunct2, THEN conjunct2, THEN conjunct1]
  note ab5 = ab[THEN conjunct2, THEN conjunct2, THEN conjunct2, THEN conjunct2, THEN conjunct1]
  note ab6 = ab[THEN conjunct2, THEN conjunct2, THEN conjunct2, THEN conjunct2, THEN conjunct2]
  have m2: "cl_markers c2 = m # absorb (isClusterable w) ((isAdded w)(m := True)) (catchment_search gm w m)"
    using ab1 by simp
  have f2: "pass_frame w w2" using f1 ab3 by (rule pass_frame_trans)
  have a2: "isAdded w2 = (\<lambda>x. isAdded w x \<or> x \<in> set (cl_markers c2))"
    unfolding m2 ab2 by (rule ext) auto
  have f3: "pass_frame w (w2\<lparr>clusters := clusters w2 @ [c2]\<rparr>)"
    using f2 by (elim pass_frameE) (simp add: pass_frame_def)
  show ?thesis
    unfolding body
    apply (rule exI[of _ c2])
    apply (intro conjI)
         apply (simp add: ab4)
        apply (rule m2)
       apply (simp add: a2)
      apply (rule f3)
     apply (simp add: ab6)
    apply (simp add: ab5)
    done
qed

lemma pass_fold:
  "\<exists>new. clusters (fold (createClusters_body gm mb) ms w) = clusters w @ new \<and>
     map cl_markers new =
       greedy_pass (\<lambda>m. bounds_contains mb (position w m)) (isClusterable w)
         (catchment_search gm w) (isAdded w) ms \<and>
     isAdded (fold (createClusters_body gm mb) ms w) =
       (\<lambda>x. isAdded w x \<or> (\<exists>c \<in> set new. x \<in> set (cl_markers c))) \<and>
     pass_frame w (fold (createClusters_body gm mb) ms w)"
proof (induction ms arbitrary: w)
  case Nil
  show ?case by simp
next
  case (Cons m ms)
  let ?f = "createClusters_body gm mb"
  show ?case
  proof (cases "isAdded w m \<or> \<not> bounds_contains mb (position w m) \<or> \<not> isClusterable w m")
    case True
    then have "?f m w = w" by (rule body_skip)
    with Cons.IH[of w] True show ?thesis by auto
  next
    case False
    then have h: "\<not> isAdded w m" "bounds_contains mb (position w m)" "isClusterable w m"
      by auto
    define w1 where "w1 = ?f m w"
    from body_seed[OF h, of gm, folded w1_def]
    obtain c where c: "clusters w1 = clusters w @ [c]"
      "cl_markers c = m # absorb (isClusterable w) ((isAdded w)(m := True)) (catchment_search gm w m)"
      "isAdded w1 = (\<lambda>x. isAdded w x \<or> x \<in> set (cl_markers c))"
      "pass_frame w w1"
      by blast
    from Cons.IH[of w1]
    obtain new1 where n: "clusters (fold ?f ms w1) = clusters w1 @ new1"
      "map cl_markers new1 =
         greedy_pass (\<lambda>m. bounds_contains mb (position w1 m)) (isClusterable w1)
           (catchment_search gm w1) (isAdded w1) ms"
      "isAdded (fold ?f ms w1) = (\<lambda>x. isAdded w1 x \<or> (\<exists>c \<in> set new1. x \<in> set (cl_markers c)))"
      "pass_frame w1 (fold ?f ms w1)"
      by blast
    have fo: "fold ?f (m # ms) w = fold ?f ms w1" by (simp add: w1_def)
    have g: "greedy_pass (\<lambda>m. bounds_contains mb (position w m)) (isClusterable w)
           (catchment_search gm w) (isAdded w) (m # ms) =
        cl_markers c # greedy_pass (\<lambda>m. bounds_contains mb (position w m)) (isClusterable w)
           (catchment_search gm w) (isAdded w1) ms"
      using h by (simp add: c(2,3) Let_def)
    have n2: "map cl_markers new1 =
         greedy_pass (\<lambda>m. bounds_contains mb (position w m)) (isClusterable w)
           (catchment_search gm w) (isAdded w1) ms"
      using n(2) by (simp add: pass_frame_fields[OF c(4)] frame_derived[OF c(4)])
    have "clusters (fold ?f (m # ms) w) = clusters w @ (c # new1)"
      unfolding fo n(1) c(1) by simp
    moreover have "map cl_markers (c # new1) =
       greedy_pass (\<lambda>m. bounds_contains mb (position w m)) (isClusterable w)
         (catchment_search gm w) (isAdded w) (m # ms)"
      unfolding g using n2 by simp
    moreover have "isAdded (fold ?f (m # ms) w) =
       (\<lambda>x. isAdded w x \<or> (\<exists>c \<in> set (c # new1). x \<in> set (cl_markers c)))"
      unfolding fo n(3) c(3) by (rule ext) auto
    moreover have "pass_frame w (fold ?f (m # ms) w)"
      unfolding fo using c(4) n(4) by (rule pass_frame_trans)
    ultimately show ?thesis by blast
  qed
qed

lemma pass_mono: "isAdded w x \<Longrightarrow> isAdded (fold (createClusters_body gm mb) ms w) x"
  using pass_fold[of gm mb ms w] by auto

lemma pass_fold_frame: "pass_frame w (fold (createClusters_body gm mb) ms w)"
  using pass_fold[of gm mb ms w] by blast

lemma pass_post:
  "\<forall>m \<in> set ms. isAdded (fold (createClusters_body gm mb) ms w) m \<or>
      \<not> bounds_contains mb (position w m) \<or> \<not> isClusterable w m"
proof (induction ms arbitrary: w)
  case Nil
  show ?case by simp
next
  case (Cons m ms)
  let ?f = "createClusters_body gm mb"
  define w1 where "w1 = ?f m w"
  have fo: "fold ?f (m # ms) w = fold ?f ms w1" by (simp add: w1_def)
  have fr: "pass_frame w w1"
    using pass_fold_frame[of w gm mb "[m]"] by (simp add: w1_def)
  have hd: "isAdded w1 m \<or> \<not> bounds_contains mb (position w m) \<or> \<not> isClusterable w m"
  proof (cases "isAdded w m \<or> \<not> bounds_contains mb (position w m) \<or> \<not> isClusterable w m")
    case True
    then show ?thesis using body_skip[OF True, of gm] by (auto simp: w1_def)
  next
    case False
    then have h: "\<not> isAdded w m" "bounds_contains mb (position w m)" "isClusterable w m"
      by auto
    from body_seed[OF h, of gm, folded w1_def] show ?thesis by auto
  qed
  have "isAdded (fold ?f ms w1) m \<or> \<not> bounds_contains mb (position w m) \<or> \<not> isClusterable w m"
    using hd pass_mono[of w1 m gm mb ms] by blast
  moreover have "\<forall>x \<in> set ms. isAdded (fold ?f ms w1) x \<or>
      \<not> bounds_contains mb (position w x) \<or> \<not> isClusterable w x"
    using Cons.IH[of w1] by (simp add: pass_frame_fields[OF fr])
  ultimately show ?case unfolding fo by simp
qed

lemma pass_idle:
  "\<forall>m \<in> set ms. isAdded w m \<or> \<not> bounds_contains mb (position w m) \<or> \<not> isClusterable w m \<Longrightarrow>
   fold (createClusters_body gm mb) ms w = w"
  by (induction ms) (simp_all add: body_skip)

lemma createClusters_ready:
  "ready w \<Longrightarrow> getBounds gm = Some mb \<Longrightarrow>
   createClusters gm w =
     Returns () (fold (createClusters_body gm (expandedViewport gm w mb)) (markers w) w)"
  by (simp add: createClusters_def expandedViewport_def Let_def)

lemma createClusters_idempotent:
  assumes "createClusters gm w = Returns u w'"
  shows "createClusters gm w' = Returns u w'"
proof (cases "ready w")
  case False
  with assms show ?thesis by (simp add: createClusters_def)
next
  case True
  with assms obtain mb where mb: "getBounds gm = Some mb"
    by (cases "getBounds gm") (simp_all add: createClusters_def)
  let ?mb = "expandedViewport gm w mb"
  have w': "w' = fold (createClusters_body gm ?mb) (markers w) w"
    using assms createClusters_ready[OF True mb] by simp
  have fr: "pass_frame w w'"
    unfolding w' by (rule pass_fold_frame)
  have post: "\<forall>m \<in> set (markers w'). isAdded w' m \<or>
      \<not> bounds_contains ?mb (position w' m) \<or> \<not> isClusterable w' m"
    using pass_post[of "markers w" gm ?mb w]
    by (simp add: pass_frame_fields[OF fr] w'[symmetric])
  have "createClusters gm w' =
      Returns () (fold (createClusters_body gm (expandedViewport gm w' mb)) (markers w') w')"
    using True mb by (intro createClusters_ready) (simp_all add: pass_frame_fields[OF fr])
  also have "expandedViewport gm w' mb = ?mb" by (simp add: frame_derived[OF fr])
  also have "fold (createClusters_body gm ?mb) (markers w') w' = w'"
    using post by (rule pass_idle)
  finally show ?thesis by simp
qed

lemmas engine_defs = createClusters_def createClusters_body_def absorb_node_def redraw_def
  repaint_def resetViewport_def setReady_def onAdd_def addMarker_def addMarkers_def pushMarkerTo_def
  removeMarker_internal_def removeMarker_def removeMarkers_def clearMarkers_def getMarkerCluster_def
  removeCluster_def getMarkerNode_def rbush_insert_def rbush_load_def rbush_all_def rbush_remove_def
  rbush_clear_def rbush_search_def boundsToArray_def bounds_contains_def splice1_def
  expandedViewport_def inViewport_def catchment_search_def owners_def ex_gmap_unset_def

lemma ex_loaded_eq:
  "ex_loaded = (ex_engine 2)\<lparr>ready := True, markers := [0, 1, 2, 7],
      tree := [(0, 0, 0), (0, 2, 1), (0, 4, 2), (0, 14, 7)]\<rparr>"
  by (simp add: ex_loaded_def engine_defs ex_defs fun_upd_idem)

lemma ex_loaded_fields:
  "ready ex_loaded" "markers ex_loaded = [0, 1, 2, 7]" "clusters ex_loaded = []"
  "tree ex_loaded = [(0, 0, 0), (0, 2, 1), (0, 4, 2), (0, 14, 7)]"
  "isAdded ex_loaded = (\<lambda>m. False)" "gridSize ex_loaded = 2"
  "position ex_loaded = (\<lambda>m. \<lparr>lat = 0, lng = 2 * real m\<rparr>)"
  "isClusterable ex_loaded = (\<lambda>m. True)"
  by (simp_all add: ex_loaded_eq ex_defs)

lemma createClusters_members:
  "ready w \<Longrightarrow> getBounds gm = Some mb \<Longrightarrow>
   createClusters gm w = Returns () (state_of (createClusters gm w)) \<and>
   take (length (clusters w)) (clusters (state_of (createClusters gm w))) = clusters w \<and>
   map cl_markers (drop (length (clusters w)) (clusters (state_of (createClusters gm w)))) =
     greedy_pass (inViewport gm w mb) (isClusterable w) (catchment_search gm w) (isAdded w)
       (markers w) \<and>
   isAdded (state_of (createClusters gm w)) =
     (\<lambda>x. isAdded w x \<or>
        (\<exists>members \<in> set (greedy_pass (inViewport gm w mb) (isClusterable w)
             (catchment_search gm w) (isAdded w) (markers w)). x \<in> set members))"
proof -
  assume r: "ready w" and b: "getBounds gm = Some mb"
  let ?mb = "expandedViewport gm w mb"
  let ?w' = "fold (createClusters_body gm ?mb) (markers w) w"
  have iv: "(\<lambda>m. bounds_contains ?mb (position w m)) = inViewport gm w mb"
    by (rule ext) (simp add: inViewport_def)
  note cc = createClusters_ready[OF r b]
  from pass_fold[of gm ?mb "markers w" w, unfolded iv]
  obtain new where n: "clusters ?w' = clusters w @ new"
    "map cl_markers new = greedy_pass (inViewport gm w mb) (isClusterable w)
        (catchment_search gm w) (isAdded w) (markers w)"
    "isAdded ?w' = (\<lambda>x. isAdded w x \<or> (\<exists>c \<in> set new. x \<in> set (cl_markers c)))"
    by blast
  have "(\<lambda>x. isAdded w x \<or> (\<exists>c \<in> set new. x \<in> set (cl_markers c))) =
      (\<lambda>x. isAdded w x \<or> (\<exists>members \<in> set (map cl_markers new). x \<in> set members))"
    by (rule ext) auto
  with n show ?thesis unfolding cc by simp
qed

lemma ex_clustered_fields:
  "markers ex_clustered = [0, 1, 2, 7]"
  "tree ex_clustered = [(0, 0, 0), (0, 2, 1), (0, 4, 2), (0, 14, 7)]"
  "ready ex_clustered" "map cl_markers (clusters ex_clustered) = [[0, 1], [2]]"
  "isAdded ex_clustered = (\<lambda>x. x = 0 \<or> x = 1 \<or> x = 2)"
proof -
  let ?mb = "LatLngBounds_new \<lparr>lat = - 10, lng = - 10\<rparr> \<lparr>lat = 10, lng = 10\<rparr>"
  have r: "ready ex_loaded" and b: "getBounds (ex_gmap 5) = Some ?mb"
    by (simp_all add: ex_loaded_fields ex_gmap_def)
  have g: "greedy_pass (inViewport (ex_gmap 5) ex_loaded ?mb) (isClusterable ex_loaded)
      (catchment_search (ex_gmap 5) ex_loaded) (isAdded ex_loaded) (markers ex_loaded) = [[0, 1], [2]]"
    by (simp add: ex_loaded_fields inViewport_def expandedViewport_def catchment_search_def
      getExtendedBounds_def ex_gmap_def LatLngBounds_new_def bounds_extend_def bounds_contains_def
      rbush_search_def boundsToArray_def Let_def)
  note m = createClusters_members[OF r b, unfolded g, folded redraw_def, folded ex_clustered_def]
  have fr: "pass_frame ex_loaded ex_clustered"
    unfolding ex_clustered_def redraw_def createClusters_ready[OF r b] by (simp add: pass_fold_frame)
  show "markers ex_clustered = [0, 1, 2, 7]"
  "tree ex_clustered = [(0, 0, 0), (0, 2, 1), (0, 4, 2), (0, 14, 7)]"
    "ready ex_clustered"
    by (simp_all add: pass_frame_fields[OF fr] ex_loaded_fields)
  show "map cl_markers (clusters ex_clustered) = [[0, 1], [2]]"
    using m by (simp add: ex_loaded_fields)
  show "isAdded ex_clustered = (\<lambda>x. x = 0 \<or> x = 1 \<or> x = 2)"
    using m by (auto simp: ex_loaded_fields fun_eq_iff)
qed

text \<open>
  Claim C1. A pass on a ready engine with map bounds returns, leaves the clusters that
  existed untouched and appends the new ones after them; the member lists of the new
  clusters, in the order of the list, are those of \<open>greedy_pass\<close>: the markers are
  visited in registration order, each marker that is then not flagged, inside the expanded
  viewport and eligible seeds one cluster, whose further members are the candidates of the
  spatial-index search around the seed that are not yet flagged and eligible, in the order
  of the search result; the flagged markers after the pass are those flagged before and the
  members of the new clusters.
\<close>

theorem createClusters_greedy:
  "ready w \<Longrightarrow> getBounds gm = Some mb \<Longrightarrow>
   createClusters gm w = Returns () (state_of (createClusters gm w)) \<and>
   take (length (clusters w)) (clusters (state_of (createClusters gm w))) = clusters w \<and>
   map cl_markers (drop (length (clusters w)) (clusters (state_of (createClusters gm w)))) =
     greedy_pass (inViewport gm w mb) (isClusterable w) (catchment_search gm w) (isAdded w)
       (markers w) \<and>
   isAdded (state_of (createClusters gm w)) =
     (\<lambda>x. isAdded w x \<or>
        (\<exists>members \<in> set (greedy_pass (inViewport gm w mb) (isClusterable w)
             (catchment_search gm w) (isAdded w) (markers w)). x \<in> set members))"
  by (rule createClusters_members)

theorem createClusters_greedy_witness:
  "ready ex_loaded \<and>
   getBounds (ex_gmap 5) = Some (LatLngBounds_new \<lparr>lat = - 10, lng = - 10\<rparr> \<lparr>lat = 10, lng = 10\<rparr>) \<and>
   markers ex_loaded = [0, 1, 2, 7] \<and>
   map cl_markers (clusters (state_of (createClusters (ex_gmap 5) ex_loaded))) = [[0, 1], [2]]"
  using createClusters_greedy[of ex_loaded "ex_gmap 5"
      "LatLngBounds_new \<lparr>lat = - 10, lng = - 10\<rparr> \<lparr>lat = 10, lng = 10\<rparr>"]
  by (simp add: ex_loaded_fields inViewport_def expandedViewport_def catchment_search_def
      getExtendedBounds_def ex_gmap_def LatLngBounds_new_def bounds_extend_def bounds_contains_def
      rbush_search_def boundsToArray_def Let_def)

lemma createClusters_not_ready_eq: "\<not> ready w \<Longrightarrow> createClusters gm w = Returns () w"
  by (simp add: createClusters_def)

lemma fold_reset:
  "fold (\<lambda>marker w. let w = set_isAdded marker False w
                      in if reset then setMap marker None w else w) ms w =
   w\<lparr>isAdded := (\<lambda>x. if x \<in> set ms then False else isAdded w x),
     marker_map := (\<lambda>x. if reset \<and> x \<in> set ms then None else marker_map w x)\<rparr>"
proof (induction ms arbitrary: w)
  case Nil
  show ?case by simp
next
  case (Cons a ms)
  let ?g = "\<lambda>marker w. let w = set_isAdded marker False w
                      in if reset then setMap marker None w else w"
  have e1: "(\<lambda>x. if x \<in> set ms then False else isAdded (?g a w) x) =
      (\<lambda>x. if x \<in> set (a # ms) then False else isAdded w x)"
    by (rule ext) (simp add: Let_def)
  have e2: "(\<lambda>x. if reset \<and> x \<in> set ms then None else marker_map (?g a w) x) =
      (\<lambda>x. if reset \<and> x \<in> set (a # ms) then None else marker_map w x)"
    by (rule ext) (simp add: Let_def)
  have "fold ?g (a # ms) w = fold ?g ms (?g a w)" by simp
  also have "\<dots> = (?g a w)\<lparr>isAdded := (\<lambda>x. if x \<in> set ms then False else isAdded (?g a w) x),
     marker_map := (\<lambda>x. if reset \<and> x \<in> set ms then None else marker_map (?g a w) x)\<rparr>"
    by (rule Cons.IH)
  also have "\<dots> = w\<lparr>isAdded := (\<lambda>x. if x \<in> set (a # ms) then False else isAdded w x),
     marker_map := (\<lambda>x. if reset \<and> x \<in> set (a # ms) then None else marker_map w x)\<rparr>"
    unfolding e1 e2 by (simp add: Let_def set_isAdded_def setMap_def)
  finally show ?case .
qed

lemma resetViewport_eq:
  "resetViewport reset w =
   w\<lparr>isAdded := (\<lambda>x. if x \<in> set (markers w) then False else isAdded w x),
     marker_map := (\<lambda>x. if reset \<and> x \<in> set (markers w) then None else marker_map w x),
     clusters := []\<rparr>"
  by (simp add: resetViewport_def fold_reset)

lemma resetViewport_idle:
  assumes "clusters w = []" "\<forall>m \<in> set (markers w). \<not> isAdded w m"
  shows "resetViewport False w = w"
proof -
  have "(\<lambda>x. if x \<in> set (markers w) then False else isAdded w x) = isAdded w"
    using assms(2) by (intro ext) auto
  then show ?thesis using assms(1) by (simp add: resetViewport_eq)
qed

text \<open>
  Claim C8, as amended. When the map has no bounds, a pass requested before the engine is
  ready is skipped and leaves the state as it is; on a ready engine \<open>createClusters_\<close>
  throws a TypeError when it reads the bounds, before it changes the state.
\<close>

theorem createClusters_without_bounds:
  "getBounds gm = None \<Longrightarrow>
   (\<not> ready w \<longrightarrow> createClusters gm w = Returns () w) \<and>
   (ready w \<longrightarrow> createClusters gm w = Throws TypeError w)"
  by (simp add: createClusters_def)

theorem createClusters_without_bounds_witness:
  "getBounds ex_gmap_unset = None \<and> ready ex_loaded \<and>
   createClusters ex_gmap_unset ex_loaded = Throws TypeError ex_loaded"
  using createClusters_without_bounds[of ex_gmap_unset ex_loaded]
  by (simp add: ex_gmap_unset_def ex_loaded_fields)

text \<open>
  Claim C8 as stated fails on a ready engine: mounting the engine on a map without bounds
  sets \<open>ready\<close> and then throws, and every later \<open>redraw\<close> throws as well.
\<close>

theorem createClusters_without_bounds_counterexample:
  "getBounds ex_gmap_unset = None \<and>
   onAdd ex_gmap_unset (ex_engine 2) = Throws TypeError ((ex_engine 2)\<lparr>ready := True\<rparr>) \<and>
   redraw ex_gmap_unset ((ex_engine 2)\<lparr>ready := True\<rparr>)
     = Throws TypeError ((ex_engine 2)\<lparr>ready := True\<rparr>)"
  by (simp add: ex_gmap_unset_def onAdd_def setReady_def redraw_def createClusters_def
      ex_engine_def MarkerClusterer_init_def)

text \<open>
  Claim C4. When \<open>redraw\<close> has returned, a second \<open>redraw\<close> under the same map state
  returns the very same state: no cluster is added, and no cluster and no marker changes.
  In every case the second call ends as the first did and leaves the state the first left.
\<close>

theorem redraw_twice:
  "(redraw gm w = Returns u w' \<longrightarrow>
      redraw gm w' = Returns u w' \<and> clusters (state_of (redraw gm w')) = clusters w') \<and>
   redraw gm (state_of (redraw gm w)) = redraw gm w"
proof -
  have a: "redraw gm w' = Returns u w'" if "redraw gm w = Returns u w'" for u w'
    using that by (simp add: redraw_def createClusters_idempotent)
  have "redraw gm (state_of (redraw gm w)) = redraw gm w"
  proof (cases "redraw gm w")
    case (Returns u w')
    then show ?thesis using a[OF Returns] by simp
  next
    case (Throws e w')
    then have "w' = w"
      by (cases "getBounds gm") (auto simp: redraw_def createClusters_def Let_def split: if_splits)
    with Throws show ?thesis by simp
  qed
  with a show ?thesis by simp
qed

lemma createClusters_returns:
  "ready w \<Longrightarrow> getBounds gm = Some mb \<Longrightarrow>
   createClusters gm w = Returns () (state_of (createClusters gm w))"
  by (simp add: createClusters_ready)

lemma ex_clustered_returned: "redraw (ex_gmap 5) ex_loaded = Returns () ex_clustered"
  unfolding ex_clustered_def redraw_def
  by (rule createClusters_returns) (simp_all add: ex_loaded_fields ex_gmap_def)

theorem redraw_twice_witness:
  "redraw (ex_gmap 5) ex_loaded = Returns () ex_clustered \<and>
   redraw (ex_gmap 5) ex_clustered = Returns () ex_clustered"
  using redraw_twice[of "ex_gmap 5" ex_loaded "()" ex_clustered] ex_clustered_returned by simp

lemma indexOf_notin: "x \<notin> set xs \<Longrightarrow> indexOf xs x = - 1"
  by (induction xs) (auto simp: Let_def)

lemma indexOf_in:
  "x \<in> set xs \<Longrightarrow> 0 \<le> indexOf xs x \<and> splice1 xs (nat (indexOf xs x)) = remove1 x xs"
proof (induction xs)
  case Nil
  then show ?case by simp
next
  case (Cons y ys)
  show ?case
  proof (cases "y = x")
    case True
    then show ?thesis by (simp add: splice1_def)
  next
    case False
    with Cons.prems have "x \<in> set ys" by simp
    from Cons.IH[OF this] have i: "0 \<le> indexOf ys x" "splice1 ys (nat (indexOf ys x)) = remove1 x ys"
      by simp_all
    from i(1) have n: "nat (indexOf ys x + 1) = Suc (nat (indexOf ys x))" by simp
    show ?thesis using False i by (simp add: Let_def n) (simp add: splice1_def)
  qed
qed

lemma fold_tree_remove:
  "fold (\<lambda>nd w. if P nd then w\<lparr>tree := rbush_remove nd (tree w)\<rparr> else w) nodes w =
   w\<lparr>tree := fold (\<lambda>nd t. if P nd then remove1 nd t else t) nodes (tree w)\<rparr>"
  by (induction nodes arbitrary: w) (simp_all add: rbush_remove_def)

lemma fold_remove1_filter:
  "mset (filter P xs) = mset (filter P t) \<Longrightarrow>
   fold (\<lambda>nd t. if P nd then remove1 nd t else t) xs t = filter (\<lambda>n. \<not> P n) t"
proof (induction xs arbitrary: t)
  case Nil
  then have "filter P t = []" by simp
  then have "\<forall>n \<in> set t. \<not> P n" by (simp add: filter_empty_conv)
  then show ?case by simp
next
  case (Cons x xs)
  show ?case
  proof (cases "P x")
    case False
    with Cons.prems have "mset (filter P xs) = mset (filter P t)" by simp
    from Cons.IH[OF this] False show ?thesis by simp
  next
    case True
    have fr: "filter P (remove1 x t) = remove1 x (filter P t)"
      using True by (induction t) auto
    have p: "filter_mset P (mset t) = add_mset x (filter_mset P (mset xs))"
      using Cons.prems True by simp
    have "mset (filter P xs) = mset (filter P (remove1 x t))"
      by (simp add: fr p)
    from Cons.IH[OF this]
    have "fold (\<lambda>nd t. if P nd then remove1 nd t else t) xs (remove1 x t) =
        filter (\<lambda>n. \<not> P n) (remove1 x t)" .
    also have "\<dots> = remove1 x (filter (\<lambda>n. \<not> P n) t)"
      using True by (induction t) auto
    also have "\<dots> = filter (\<lambda>n. \<not> P n) t"
      using True by (simp add: remove1_idem)
    finally show ?thesis using True by simp
  qed
qed

lemma removeMarker_internal_absent:
  "marker \<notin> set (markers w) \<Longrightarrow> removeMarker_internal w marker = (False, w)"
  by (simp add: removeMarker_internal_def indexOf_notin)

lemma removeMarker_internal_tracked:
  assumes "marker \<in> set (markers w)"
  shows "removeMarker_internal w marker =
     (True, w\<lparr>marker_map := (marker_map w)(marker := None),
              markers := remove1 marker (markers w),
              tree := filter (\<lambda>nd. snd (snd nd) \<noteq> marker) (tree w)\<rparr>)"
proof -
  from indexOf_in[OF assms]
  have i: "indexOf (markers w) marker \<noteq> - 1"
    "splice1 (markers w) (nat (indexOf (markers w) marker)) = remove1 marker (markers w)"
    by auto
  have f: "fold (\<lambda>nd t. if snd (snd nd) = marker then remove1 nd t else t) (tree w) (tree w) =
      filter (\<lambda>nd. snd (snd nd) \<noteq> marker) (tree w)"
    by (rule fold_remove1_filter) simp
  show ?thesis
    using i by (simp add: removeMarker_internal_def Let_def setMap_def rbush_all_def
        fold_tree_remove f)
qed

text \<open>
  Claim C6, as amended. \<open>removeMarker\<close> on a marker that is not tracked returns false and
  leaves the whole state as it is. On a tracked marker it detaches the marker from its
  map, removes its first registration from the marker list and all its records from the
  spatial index; called without \<open>opt_nodraw\<close> it then runs \<open>resetViewport\<close> and a
  clustering pass and, when the pass does not throw, returns true; called with
  \<open>opt_nodraw\<close> it runs neither, and the state it leaves is the one after the removal.
\<close>

theorem removeMarker_result:
  "(marker \<notin> set (markers w) \<longrightarrow> removeMarker gm w marker nodraw = Returns False w) \<and>
   (marker \<in> set (markers w) \<longrightarrow>
      removeMarker gm w marker False =
        returning True (createClusters gm (resetViewport False
          (w\<lparr>marker_map := (marker_map w)(marker := None),
             markers := remove1 marker (markers w),
             tree := filter (\<lambda>nd. snd (snd nd) \<noteq> marker) (tree w)\<rparr>))) \<and>
      (\<not> ready w \<or> getBounds gm \<noteq> None \<longrightarrow>
         removeMarker gm w marker False =
           Returns True (state_of (createClusters gm (resetViewport False
             (w\<lparr>marker_map := (marker_map w)(marker := None),
                markers := remove1 marker (markers w),
                tree := filter (\<lambda>nd. snd (snd nd) \<noteq> marker) (tree w)\<rparr>))))) \<and>
      state_of (removeMarker gm w marker True) =
        w\<lparr>marker_map := (marker_map w)(marker := None),
          markers := remove1 marker (markers w),
          tree := filter (\<lambda>nd. snd (snd nd) \<noteq> marker) (tree w)\<rparr>)"
proof (intro conjI impI)
  assume "marker \<notin> set (markers w)"
  then show "removeMarker gm w marker nodraw = Returns False w"
    by (simp add: removeMarker_def removeMarker_internal_absent)
next
  let ?w1 = "w\<lparr>marker_map := (marker_map w)(marker := None),
             markers := remove1 marker (markers w),
             tree := filter (\<lambda>nd. snd (snd nd) \<noteq> marker) (tree w)\<rparr>"
  assume t: "marker \<in> set (markers w)"
  show r: "removeMarker gm w marker False = returning True (createClusters gm (resetViewport False ?w1))"
    by (simp add: removeMarker_def removeMarker_internal_tracked[OF t] redraw_def)
  show "state_of (removeMarker gm w marker True) = ?w1"
    by (simp add: removeMarker_def removeMarker_internal_tracked[OF t])
  assume "\<not> ready w \<or> getBounds gm \<noteq> None"
  then have "createClusters gm (resetViewport False ?w1) =
      Returns () (state_of (createClusters gm (resetViewport False ?w1)))"
    by (cases "getBounds gm") (auto simp: createClusters_def resetViewport_eq Let_def)
  then show "removeMarker gm w marker False =
      Returns True (state_of (createClusters gm (resetViewport False ?w1)))"
    unfolding r by (metis returning.simps(1))
qed

theorem removeMarker_result_witness:
  "1 \<in> set (markers ex_loaded) \<and>
   removeMarker (ex_gmap 5) ex_loaded 1 False =
     Returns True (state_of (createClusters (ex_gmap 5) (resetViewport False
       (ex_loaded\<lparr>marker_map := (marker_map ex_loaded)(1 := None), markers := [0, 2, 7],
          tree := [(0, 0, 0), (0, 4, 2), (0, 14, 7)]\<rparr>)))) \<and>
   removeMarker (ex_gmap 5) ex_loaded 9 False = Returns False ex_loaded"
proof -
  have t: "1 \<in> set (markers ex_loaded)" and u: "9 \<notin> set (markers ex_loaded)"
    by (simp_all add: ex_loaded_fields)
  have b: "\<not> ready ex_loaded \<or> getBounds (ex_gmap 5) \<noteq> None"
    by (simp add: ex_gmap_def)
  note r = removeMarker_result[of 1 ex_loaded "ex_gmap 5" False, THEN conjunct2, rule_format, OF t]
  note r1 = r[THEN conjunct2, THEN conjunct1, rule_format, OF b]
  note r2 = removeMarker_result[of 9 ex_loaded "ex_gmap 5" False, THEN conjunct1, rule_format, OF u]
  have e: "remove1 1 (markers ex_loaded) = [0, 2, 7]"
    "filter (\<lambda>nd. snd (snd nd) \<noteq> 1) (tree ex_loaded) = [(0, 0, 0), (0, 4, 2), (0, 14, 7)]"
    by (simp_all add: ex_loaded_fields)
  show ?thesis using t r1[unfolded e] r2 by blast
qed

text \<open>
  Claim C6 as stated fails when \<open>opt_nodraw\<close> is set: marker 1 is tracked and a member of
  the first cluster, \<open>removeMarker(1, true)\<close> removes it from the marker list and returns
  false, and the clusters stay as they were, marker 1 still a member of the first.
\<close>

theorem removeMarker_result_counterexample:
  "1 \<in> set (markers ex_clustered) \<and>
   map cl_markers (clusters ex_clustered) = [[0, 1], [2]] \<and>
   removeMarker (ex_gmap 5) ex_clustered 1 True =
     Returns False (state_of (removeMarker (ex_gmap 5) ex_clustered 1 True)) \<and>
   markers (state_of (removeMarker (ex_gmap 5) ex_clustered 1 True)) = [0, 2, 7] \<and>
   map cl_markers (clusters (state_of (removeMarker (ex_gmap 5) ex_clustered 1 True))) = [[0, 1], [2]]"
  by (simp add: removeMarker_def removeMarker_internal_tracked ex_clustered_fields)

lemma fold_pushMarkerTo:
  "fold pushMarkerTo ms w =
   w\<lparr>isAdded := (\<lambda>x. if x \<in> set ms then False else isAdded w x), markers := markers w @ ms\<rparr>"
proof (induction ms arbitrary: w)
  case Nil
  show ?case by simp
next
  case (Cons a ms)
  have e: "(\<lambda>x. if x \<in> set ms then False else isAdded (pushMarkerTo a w) x) =
      (\<lambda>x. if x \<in> set (a # ms) then False else isAdded w x)"
    by (rule ext) (simp add: pushMarkerTo_def Let_def)
  have "fold pushMarkerTo (a # ms) w = fold pushMarkerTo ms (pushMarkerTo a w)" by simp
  also have "\<dots> = (pushMarkerTo a w)\<lparr>isAdded :=
      (\<lambda>x. if x \<in> set ms then False else isAdded (pushMarkerTo a w) x),
      markers := markers (pushMarkerTo a w) @ ms\<rparr>"
    by (rule Cons.IH)
  also have "\<dots> = w\<lparr>isAdded := (\<lambda>x. if x \<in> set (a # ms) then False else isAdded w x),
      markers := markers w @ a # ms\<rparr>"
    unfolding e by (simp add: pushMarkerTo_def Let_def set_isAdded_def)
  finally show ?case .
qed

lemma MarkerClusterer_eq:
  "MarkerClusterer gm mp h ms opts =
   Returns () ((MarkerClusterer_init mp h opts)
     \<lparr>isAdded := (\<lambda>x. if x \<in> set ms then False else h_isAdded h x), markers := ms,
      tree := map (\<lambda>m. (lat (h_position h m), lng (h_position h m), m)) ms\<rparr>)"
proof (cases "ms = []")
  case True
  then show ?thesis by (simp add: MarkerClusterer_def MarkerClusterer_init_def)
next
  case False
  have g: "getMarkerNode (w\<lparr>isAdded := a, markers := b\<rparr>) = getMarkerNode w" for w a b
    by (rule ext) (simp add: getMarkerNode_def)
  show ?thesis
    using False
    by (simp add: MarkerClusterer_def addMarkers_def Let_def fold_pushMarkerTo redraw_def
        createClusters_def rbush_load_def g)
      (simp add: MarkerClusterer_init_def getMarkerNode_def)
qed

text \<open>
  Claim C10. In the engine the constructor returns, \<open>zoomOnClick\<close> is true whatever the
  option says; \<open>minimumClusterSize\<close>, \<open>gridSize\<close> and \<open>maxZoom\<close> given as 0 (or not given)
  yield 2, 60 and no zoom cap; \<open>averageCenter\<close> given as false yields false, its default;
  \<open>isClusterable\<close> and \<open>iconGenerator\<close> not given yield the default functions;
  a width or height of 0 leaves the icon of every new cluster at its default size 0, and an
  anchor of 0 (\<open>TOP_LEFT\<close>) leaves the icon with the default anchor \<open>CENTER\<close>.
\<close>

theorem constructor_falsy_options:
  "w = state_of (MarkerClusterer gm mp h ms opts) \<Longrightarrow>
   MarkerClusterer gm mp h ms opts = Returns () w \<and>
   zoomOnClick w \<and>
   (o_minimumClusterSize opts = Some 0 \<or> o_minimumClusterSize opts = None \<longrightarrow> minClusterSize w = 2) \<and>
   (o_gridSize opts = Some 0 \<or> o_gridSize opts = None \<longrightarrow> gridSize w = 60) \<and>
   (o_maxZoom opts = Some 0 \<or> o_maxZoom opts = None \<longrightarrow> maxZoom w = None) \<and>
   (o_averageCenter opts = Some False \<or> o_averageCenter opts = None \<longrightarrow> \<not> averageCenter w) \<and>
   (o_isClusterable opts = None \<longrightarrow> isClusterable w = (\<lambda>marker. True)) \<and>
   (o_iconGenerator opts = None \<longrightarrow> iconGenerator w = (\<lambda>ms. NumberContent (length ms))) \<and>
   (\<not> truthy_num (o_width opts) \<or> \<not> truthy_num (o_height opts) \<longrightarrow>
      icon_width (clusterIcon (Cluster_new w i)) = 0 \<and>
      icon_height (clusterIcon (Cluster_new w i)) = 0) \<and>
   (\<not> truthy_nat (o_anchor opts) \<longrightarrow>
      anchor_used (clusterIcon (Cluster_new w i)) = MarkerClusterer_CENTER)"
proof -
  assume w: "w = state_of (MarkerClusterer gm mp h ms opts)"
  have f: "zoomOnClick w = or_bool (o_zoomOnClick opts) True"
    "minClusterSize w = or_num (o_minimumClusterSize opts) 2"
    "gridSize w = or_num (o_gridSize opts) 60"
    "maxZoom w = or_null (o_maxZoom opts)"
    "averageCenter w = or_bool (o_averageCenter opts) False"
    "clusterWidth w = o_width opts" "clusterHeight w = o_height opts" "anchor w = o_anchor opts"
    "isClusterable w = or_fun (o_isClusterable opts) (\<lambda>marker. True)"
    "iconGenerator w = or_fun (o_iconGenerator opts) (\<lambda>ms. NumberContent (length ms))"
    by (simp_all add: w MarkerClusterer_eq MarkerClusterer_init_def)
  have r: "MarkerClusterer gm mp h ms opts = Returns () w"
    by (simp add: w MarkerClusterer_eq)
  have z: "zoomOnClick w"
    by (simp add: f or_bool_def split: option.splits)
  have i: "\<not> truthy_num (o_width opts) \<or> \<not> truthy_num (o_height opts) \<longrightarrow>
      icon_width (clusterIcon (Cluster_new w i)) = 0 \<and>
      icon_height (clusterIcon (Cluster_new w i)) = 0"
    by (auto simp: Cluster_new_def ClusterIcon_new_def Let_def f)
  have a: "\<not> truthy_nat (o_anchor opts) \<longrightarrow>
      anchor_used (clusterIcon (Cluster_new w i)) = MarkerClusterer_CENTER"
    by (simp add: anchor_used_def Cluster_new_def ClusterIcon_new_def Let_def f)
      (simp add: truthy_nat_def)
  show ?thesis
    using r z i a by (auto simp: f or_num_def or_null_def or_bool_def or_fun_def)
qed

theorem constructor_falsy_options_witness:
  "o_zoomOnClick ex_falsy_options = Some False \<and>
   o_minimumClusterSize ex_falsy_options = Some 0 \<and>
   o_gridSize ex_falsy_options = Some 0 \<and>
   o_maxZoom ex_falsy_options = Some 0 \<and>
   o_anchor ex_falsy_options = Some 0 \<and>
   zoomOnClick (state_of (MarkerClusterer (ex_gmap 5) 0 ex_heap [0, 1] ex_falsy_options)) \<and>
   minClusterSize (state_of (MarkerClusterer (ex_gmap 5) 0 ex_heap [0, 1] ex_falsy_options)) = 2 \<and>
   gridSize (state_of (MarkerClusterer (ex_gmap 5) 0 ex_heap [0, 1] ex_falsy_options)) = 60 \<and>
   maxZoom (state_of (MarkerClusterer (ex_gmap 5) 0 ex_heap [0, 1] ex_falsy_options)) = None \<and>
   anchor_used (clusterIcon (Cluster_new
      (state_of (MarkerClusterer (ex_gmap 5) 0 ex_heap [0, 1] ex_falsy_options)) 0)) = 17"
  using constructor_falsy_options[of
      "state_of (MarkerClusterer (ex_gmap 5) 0 ex_heap [0, 1] ex_falsy_options)"
      "ex_gmap 5" 0 ex_heap "[0, 1]" ex_falsy_options 0]
  by (simp add: ex_falsy_options_def truthy_nat_def truthy_num_def MarkerClusterer_TOP_LEFT_def
      MarkerClusterer_CENTER_def xalign_LEFT_def yalign_TOP_def xalign_CENTER_def yalign_CENTER_def)

lemma engine_inv_cong:
  "clusters w' = clusters w \<Longrightarrow> isAdded w' = isAdded w \<Longrightarrow> markers w' = markers w \<Longrightarrow>
   engine_inv w' = engine_inv w"
  by (simp add: engine_inv_def owners_def)

lemma absorb_unflagged: "x \<in> set (absorb eligible added ms) \<Longrightarrow> \<not> added x"
  by (induction eligible added ms rule: absorb.induct) (auto split: if_splits)

lemma owners_empty_iff: "owners w x = [] \<longleftrightarrow> (\<forall>c \<in> set (clusters w). x \<notin> set (cl_markers c))"
  by (simp add: owners_def filter_empty_conv)

lemma engine_inv_alt:
  "engine_inv w =
     ((\<forall>c \<in> set (clusters w). \<forall>x \<in> set (cl_markers c). isAdded w x) \<and>
      (\<forall>x. length (owners w x) \<le> 1) \<and>
      (\<forall>x \<in> set (markers w). isAdded w x \<longrightarrow> owners w x \<noteq> []))"
proof -
  have "(\<forall>c \<in> set (clusters w). \<forall>x \<in> set (cl_markers c). length (owners w x) \<le> 1) =
      (\<forall>x. length (owners w x) \<le> 1)"
  proof
    assume b: "\<forall>c \<in> set (clusters w). \<forall>x \<in> set (cl_markers c). length (owners w x) \<le> 1"
    show "\<forall>x. length (owners w x) \<le> 1"
    proof
      fix x
      show "length (owners w x) \<le> 1"
      proof (cases "owners w x = []")
        case True
        then show ?thesis by simp
      next
        case False
        then obtain c where "c \<in> set (clusters w)" "x \<in> set (cl_markers c)"
          by (auto simp: owners_empty_iff)
        with b show ?thesis by blast
      qed
    qed
  qed simp
  then show ?thesis by (simp add: engine_inv_def)
qed

lemma inv_body:
  assumes inv: "engine_inv w"
  shows "engine_inv (createClusters_body gm mb m w)"
proof (cases "isAdded w m \<or> \<not> bounds_contains mb (position w m) \<or> \<not> isClusterable w m")
  case True
  then show ?thesis using inv by (simp add: body_skip)
next
  case False
  then have h: "\<not> isAdded w m" "bounds_contains mb (position w m)" "isClusterable w m"
    by auto
  define w1 where "w1 = createClusters_body gm mb m w"
  from body_seed[OF h, of gm, folded w1_def]
  obtain c where c: "clusters w1 = clusters w @ [c]"
    "cl_markers c = m # absorb (isClusterable w) ((isAdded w)(m := True)) (catchment_search gm w m)"
    "isAdded w1 = (\<lambda>x. isAdded w x \<or> x \<in> set (cl_markers c))"
    "pass_frame w w1"
    by blast
  have mk: "markers w1 = markers w" by (simp add: pass_frame_fields[OF c(4)])
  from inv have A: "\<forall>d \<in> set (clusters w). \<forall>x \<in> set (cl_markers d). isAdded w x"
    and B: "\<forall>x. length (owners w x) \<le> 1"
    and C: "\<forall>x \<in> set (markers w). isAdded w x \<longrightarrow> owners w x \<noteq> []"
    by (simp_all add: engine_inv_alt)
  have fresh: "\<not> isAdded w x" if "x \<in> set (cl_markers c)" for x
  proof (cases "x = m")
    case True
    then show ?thesis using h(1) by simp
  next
    case False
    with that have "x \<in> set (absorb (isClusterable w) ((isAdded w)(m := True)) (catchment_search gm w m))"
      by (simp add: c(2))
    from absorb_unflagged[OF this] False show ?thesis by simp
  qed
  have ow: "owners w1 x = owners w x @ (if x \<in> set (cl_markers c) then [c] else [])" for x
    by (simp add: owners_def c(1))
  have A1: "\<forall>d \<in> set (clusters w1). \<forall>x \<in> set (cl_markers d). isAdded w1 x"
    using A by (auto simp: c(1) c(3))
  have B1: "\<forall>x. length (owners w1 x) \<le> 1"
  proof
    fix x
    show "length (owners w1 x) \<le> 1"
    proof (cases "x \<in> set (cl_markers c)")
      case True
      from fresh[OF True] A have "owners w x = []"
        by (auto simp: owners_empty_iff)
      then show ?thesis by (simp add: ow)
    next
      case False
      then show ?thesis using B by (simp add: ow)
    qed
  qed
  have C1: "\<forall>x \<in> set (markers w1). isAdded w1 x \<longrightarrow> owners w1 x \<noteq> []"
    using C by (auto simp: mk c(3) ow)
  show ?thesis
    unfolding w1_def[symmetric] engine_inv_alt using A1 B1 C1 by blast
qed

lemma inv_fold:
  "engine_inv w \<Longrightarrow> engine_inv (fold (createClusters_body gm mb) ms w)"
  by (induction ms arbitrary: w) (simp_all add: inv_body)

lemma inv_createClusters: "engine_inv w \<Longrightarrow> engine_inv (state_of (createClusters gm w))"
  by (cases "getBounds gm") (simp_all add: createClusters_def Let_def inv_fold)

lemma inv_resetViewport: "engine_inv (resetViewport reset w)"
  by (simp add: engine_inv_alt owners_def resetViewport_eq)

lemma inv_fold_push:
  assumes "engine_inv w" "\<forall>m \<in> set ms. owners w m = []"
  shows "engine_inv (fold pushMarkerTo ms w)"
proof -
  from assms(1) have A: "\<forall>d \<in> set (clusters w). \<forall>x \<in> set (cl_markers d). isAdded w x"
    and B: "\<forall>x. length (owners w x) \<le> 1"
    and C: "\<forall>x \<in> set (markers w). isAdded w x \<longrightarrow> owners w x \<noteq> []"
    by (simp_all add: engine_inv_alt)
  have nm: "x \<notin> set ms" if "d \<in> set (clusters w)" "x \<in> set (cl_markers d)" for d x
    using that assms(2) by (auto simp: owners_empty_iff)
  show ?thesis
    unfolding fold_pushMarkerTo engine_inv_alt
    using A B C nm by (auto simp: owners_def)
qed

lemma inv_tree: "engine_inv (w\<lparr>tree := t\<rparr>) = engine_inv w"
  by (rule engine_inv_cong) simp_all

lemma inv_addMarker:
  "engine_inv w \<Longrightarrow> owners w marker = [] \<Longrightarrow> engine_inv (state_of (addMarker gm w marker nodraw))"
  using inv_fold_push[of w "[marker]"]
  by (auto simp: addMarker_def Let_def redraw_def inv_tree intro!: inv_createClusters)

lemma inv_addMarkers:
  "engine_inv w \<Longrightarrow> list_all (\<lambda>m. owners w m = []) ms \<Longrightarrow>
   engine_inv (state_of (addMarkers gm w ms nodraw))"
  using inv_fold_push[of w ms]
  by (auto simp: addMarkers_def Let_def redraw_def inv_tree list_all_iff intro!: inv_createClusters)

lemma inv_removeMarker_internal:
  assumes "engine_inv w"
  shows "engine_inv (snd (removeMarker_internal w marker))"
proof (cases "marker \<in> set (markers w)")
  case False
  then show ?thesis using assms by (simp add: removeMarker_internal_absent)
next
  case True
  have "set (remove1 marker (markers w)) \<subseteq> set (markers w)" by (rule set_remove1_subset)
  then show ?thesis
    using assms unfolding removeMarker_internal_tracked[OF True]
    by (auto simp: engine_inv_alt owners_def)
qed

lemma state_of_returning [simp]: "state_of (returning b r) = state_of r"
  by (cases r) simp_all

lemma inv_removeMarker:
  "engine_inv w \<Longrightarrow> engine_inv (state_of (removeMarker gm w marker nodraw))"
  using inv_removeMarker_internal[of w marker]
  by (auto simp: removeMarker_def redraw_def inv_createClusters inv_resetViewport split: prod.splits)

lemma inv_removeMarkers_fold:
  "engine_inv (snd rw) \<Longrightarrow>
   engine_inv (snd (fold (\<lambda>marker rw. case rw of (removed, w) \<Rightarrow>
                   (case removeMarker_internal w marker of (r, w) \<Rightarrow> (removed \<or> r, w))) ms rw))"
proof (induction ms arbitrary: rw)
  case Nil
  then show ?case by simp
next
  case (Cons a ms)
  obtain removed w where rw: "rw = (removed, w)" by (cases rw)
  obtain r w1 where r: "removeMarker_internal w a = (r, w1)" by (cases "removeMarker_internal w a")
  have "engine_inv w1" using inv_removeMarker_internal[of w a] Cons.prems by (simp add: rw r)
  then show ?case using Cons.IH[of "(removed \<or> r, w1)"] by (simp add: rw r)
qed

lemma inv_removeMarkers:
  "engine_inv w \<Longrightarrow> engine_inv (state_of (removeMarkers gm w ms nodraw))"
  using inv_removeMarkers_fold[of "(False, w)" ms]
  by (auto simp: removeMarkers_def redraw_def inv_createClusters inv_resetViewport split: prod.splits)

lemma inv_clearMarkers: "engine_inv (state_of (clearMarkers gm w nodraw))"
proof -
  have "engine_inv ((resetViewport True w)\<lparr>markers := [], tree := rbush_clear (tree (resetViewport True w))\<rparr>)"
    by (simp add: engine_inv_alt owners_def resetViewport_eq)
  then show ?thesis
    by (auto simp: clearMarkers_def Let_def redraw_def intro!: inv_createClusters)
qed

lemma inv_onAdd: "engine_inv w \<Longrightarrow> engine_inv (state_of (onAdd gm w))"
proof -
  assume i: "engine_inv w"
  have "engine_inv (w\<lparr>ready := True\<rparr>)"
    using i by (simp add: engine_inv_cong[of "w\<lparr>ready := True\<rparr>" w])
  then show ?thesis using i by (auto simp: onAdd_def setReady_def intro!: inv_createClusters)
qed

lemma inv_init: "engine_inv (MarkerClusterer_init mp h opts)"
  by (simp add: engine_inv_alt owners_def MarkerClusterer_init_def)

lemma reachable_inv: "reachable w \<Longrightarrow> engine_inv w"
proof (induction rule: reachable.induct)
  case (r_init mp h opts)
  show ?case by (rule inv_init)
next
  case (r_onAdd w gm)
  then show ?case by (simp add: inv_onAdd)
next
  case (r_addMarker w marker gm nodraw)
  then show ?case by (simp add: inv_addMarker)
next
  case (r_addMarkers w ms gm nodraw)
  then show ?case by (simp add: inv_addMarkers)
next
  case (r_removeMarker w gm marker nodraw)
  then show ?case by (simp add: inv_removeMarker)
next
  case (r_removeMarkers w gm ms nodraw)
  then show ?case by (simp add: inv_removeMarkers)
next
  case (r_redraw w gm)
  then show ?case by (simp add: redraw_def inv_createClusters)
next
  case (r_repaint w gm)
  then show ?case by (simp add: repaint_def redraw_def inv_createClusters inv_resetViewport)
next
  case (r_resetViewport w reset)
  show ?case by (rule inv_resetViewport)
next
  case (r_clearMarkers w gm nodraw)
  show ?case by (rule inv_clearMarkers)
qed

lemma pass_leaves_unflagged:
  assumes "ready w" "getBounds gm = Some mb" "m \<in> set (markers w)"
    "\<not> isAdded (state_of (createClusters gm w)) m"
  shows "\<not> inViewport gm w mb m \<or> \<not> isClusterable w m"
  using pass_post[of "markers w" gm "expandedViewport gm w mb" w] assms
  by (auto simp: createClusters_ready inViewport_def)

lemma ex_mounted_eq: "state_of (onAdd (ex_gmap 5) (ex_engine 2)) = (ex_engine 2)\<lparr>ready := True\<rparr>"
  by (simp add: engine_defs ex_defs)

lemma ex_reachable: "reachable ex_loaded" "reachable ex_clustered" "reachable ex_single"
proof -
  have r0: "reachable (ex_engine 2)" unfolding ex_engine_def by (rule r_init)
  have r1: "reachable (state_of (onAdd (ex_gmap 5) (ex_engine 2)))" by (rule r_onAdd[OF r0])
  have c: "clusters (state_of (onAdd (ex_gmap 5) (ex_engine 2))) = []"
    unfolding ex_mounted_eq by (simp add: ex_defs)
  have o: "list_all (\<lambda>m. owners (state_of (onAdd (ex_gmap 5) (ex_engine 2))) m = []) [0, 1, 2, 7]"
    by (simp add: owners_def c)
  show r2: "reachable ex_loaded" unfolding ex_loaded_def by (rule r_addMarkers[OF r1 o])
  show "reachable ex_clustered" unfolding ex_clustered_def by (rule r_redraw[OF r2])
  have "owners (state_of (onAdd (ex_gmap 5) (ex_engine 2))) 0 = []"
    by (simp add: owners_def c)
  then show "reachable ex_single" unfolding ex_single_def by (rule r_addMarker[OF r1])
qed

lemma ex_single_fields:
  "markers ex_single = [0]" "map cl_markers (clusters ex_single) = [[0]]" "isAdded ex_single 0"
proof -
  let ?mb = "LatLngBounds_new \<lparr>lat = - 10, lng = - 10\<rparr> \<lparr>lat = 10, lng = 10\<rparr>"
  define wb where "wb = (ex_engine 2)\<lparr>ready := True, isAdded := (\<lambda>m. False), markers := [0],
      tree := [(0, 0, 0)]\<rparr>"
  have p: "position (ex_engine 2) 0 = \<lparr>lat = 0, lng = 0\<rparr>" "isAdded (ex_engine 2) = (\<lambda>m. False)"
    "markers (ex_engine 2) = []" "tree (ex_engine 2) = []"
    by (simp_all add: ex_defs)
  have s: "ex_single = state_of (createClusters (ex_gmap 5) wb)"
    unfolding ex_single_def ex_mounted_eq wb_def
    by (simp add: addMarker_def pushMarkerTo_def Let_def redraw_def
        set_isAdded_def getMarkerNode_def rbush_insert_def p fun_upd_idem)
  have f: "ready wb" "markers wb = [0]" "clusters wb = []" "tree wb = [(0, 0, 0)]"
    "isAdded wb = (\<lambda>m. False)" "gridSize wb = 2"
    "position wb = (\<lambda>m. \<lparr>lat = 0, lng = 2 * real m\<rparr>)" "isClusterable wb = (\<lambda>m. True)"
    by (simp_all add: wb_def ex_defs)
  have b: "getBounds (ex_gmap 5) = Some ?mb" by (simp add: ex_gmap_def)
  have g: "greedy_pass (inViewport (ex_gmap 5) wb ?mb) (isClusterable wb)
      (catchment_search (ex_gmap 5) wb) (isAdded wb) (markers wb) = [[0]]"
    by (simp add: f inViewport_def expandedViewport_def catchment_search_def
      getExtendedBounds_def ex_gmap_def LatLngBounds_new_def bounds_extend_def bounds_contains_def
      rbush_search_def boundsToArray_def Let_def)
  note m = createClusters_members[OF f(1) b, unfolded g, folded s]
  have fr: "pass_frame wb ex_single"
    unfolding s createClusters_ready[OF f(1) b] by (simp add: pass_fold_frame)
  show "markers ex_single = [0]" by (simp add: pass_frame_fields[OF fr] f)
  show "map cl_markers (clusters ex_single) = [[0]]" using m by (simp add: f)
  show "isAdded ex_single 0" using m by (simp add: f)
qed

lemma ex_single_removed:
  "getMarkerCluster ex_single 0 \<noteq> None"
  "clusters (removeCluster ex_single (the (getMarkerCluster ex_single 0))) = []"
proof -
  from ex_single_fields(2) obtain c where c: "clusters ex_single = [c]" "cl_markers c = [0]"
    by (cases "clusters ex_single") auto
  have g: "getMarkerCluster ex_single 0 = Some c"
    by (simp add: getMarkerCluster_def ex_single_fields c isMarkerAlreadyAdded_def)
  then show "getMarkerCluster ex_single 0 \<noteq> None" by simp
  from g show "clusters (removeCluster ex_single (the (getMarkerCluster ex_single 0))) = []"
    by (simp add: removeCluster_def c)
qed

text \<open>
  Claim C2, as amended. In every state reached from the construction of the engine by
  \<open>onAdd\<close>, \<open>addMarker\<close>, \<open>addMarkers\<close>, \<open>removeMarker\<close>, \<open>removeMarkers\<close>, \<open>redraw\<close>,
  \<open>repaint\<close>, \<open>resetViewport\<close> and \<open>clearMarkers\<close> (not \<open>removeCluster\<close>), where no marker
  is added while it is a member of an active cluster, every tracked marker whose flag
  \<open>isAdded\<close> is true is a member of exactly one active cluster. And after a pass that
  returned, every tracked marker whose flag is false lies outside the expanded viewport
  or is not eligible.
\<close>

theorem clustered_flag_invariant:
  "(reachable w \<and> m \<in> set (markers w) \<and> isAdded w m \<longrightarrow> length (owners w m) = 1) \<and>
   (ready w \<and> getBounds gm = Some mb \<and> m \<in> set (markers w) \<and>
    \<not> isAdded (state_of (createClusters gm w)) m \<longrightarrow>
      \<not> inViewport gm w mb m \<or> \<not> isClusterable w m)"
proof (intro conjI impI)
  assume a: "reachable w \<and> m \<in> set (markers w) \<and> isAdded w m"
  then have "engine_inv w" by (simp add: reachable_inv)
  then have "length (owners w m) \<le> 1" "owners w m \<noteq> []"
    using a by (simp_all add: engine_inv_alt)
  then show "length (owners w m) = 1"
    by (cases "owners w m") simp_all
next
  assume "ready w \<and> getBounds gm = Some mb \<and> m \<in> set (markers w) \<and>
    \<not> isAdded (state_of (createClusters gm w)) m"
  then show "\<not> inViewport gm w mb m \<or> \<not> isClusterable w m"
    using pass_leaves_unflagged[of w gm mb m] by blast
qed

theorem clustered_flag_invariant_witness:
  "reachable ex_clustered \<and> 0 \<in> set (markers ex_clustered) \<and> isAdded ex_clustered 0 \<and>
   length (owners ex_clustered 0) = 1 \<and>
   ready ex_loaded \<and> 7 \<in> set (markers ex_loaded) \<and>
   \<not> isAdded (state_of (createClusters (ex_gmap 5) ex_loaded)) 7 \<and>
   \<not> inViewport (ex_gmap 5) ex_loaded
       (LatLngBounds_new \<lparr>lat = - 10, lng = - 10\<rparr> \<lparr>lat = 10, lng = 10\<rparr>) 7"
proof -
  have e: "state_of (createClusters (ex_gmap 5) ex_loaded) = ex_clustered"
    by (simp add: ex_clustered_def redraw_def)
  have h1: "reachable ex_clustered \<and> 0 \<in> set (markers ex_clustered) \<and> isAdded ex_clustered 0"
    by (simp add: ex_reachable ex_clustered_fields)
  have h2: "ready ex_loaded \<and>
      getBounds (ex_gmap 5) = Some (LatLngBounds_new \<lparr>lat = - 10, lng = - 10\<rparr> \<lparr>lat = 10, lng = 10\<rparr>) \<and>
      7 \<in> set (markers ex_loaded) \<and> \<not> isAdded (state_of (createClusters (ex_gmap 5) ex_loaded)) 7"
  proof -
    have "\<not> isAdded (state_of (createClusters (ex_gmap 5) ex_loaded)) 7"
      unfolding e by (simp add: ex_clustered_fields)
    then show ?thesis by (simp add: ex_loaded_fields ex_gmap_def)
  qed
  note t1 = clustered_flag_invariant[of ex_clustered 0 "ex_gmap 5", THEN conjunct1, rule_format]
  note t2 = clustered_flag_invariant[of ex_loaded 7 "ex_gmap 5"
        "LatLngBounds_new \<lparr>lat = - 10, lng = - 10\<rparr> \<lparr>lat = 10, lng = 10\<rparr>",
        THEN conjunct2, rule_format]
  have l: "length (owners ex_clustered 0) = 1" using t1 h1 by blast
  have v: "\<not> inViewport (ex_gmap 5) ex_loaded
       (LatLngBounds_new \<lparr>lat = - 10, lng = - 10\<rparr> \<lparr>lat = 10, lng = 10\<rparr>) 7"
    using t2[OF h2] by (simp add: ex_loaded_fields)
  show ?thesis using h1 h2 l v by blast
qed

text \<open>
  Claim C2 as stated fails after \<open>removeCluster\<close>: the mounted engine clusters marker 0 on
  \<open>addMarker\<close>; removing that cluster (the one \<open>getMarkerCluster\<close> returns for marker 0)
  leaves marker 0 tracked and flagged, and a member of no active cluster.
\<close>

theorem clustered_flag_invariant_counterexample:
  "reachable ex_single \<and> map cl_markers (clusters ex_single) = [[0]] \<and>
   getMarkerCluster ex_single 0 \<noteq> None \<and>
   0 \<in> set (markers (removeCluster ex_single (the (getMarkerCluster ex_single 0)))) \<and>
   isAdded (removeCluster ex_single (the (getMarkerCluster ex_single 0))) 0 \<and>
   owners (removeCluster ex_single (the (getMarkerCluster ex_single 0))) 0 = []"
  using ex_single_removed
  by (simp add: ex_reachable ex_single_fields owners_def) (simp add: removeCluster_def ex_single_fields)

text \<open>
  The two provisos of the amended claim C2 are needed. A marker registered a second time
  while it is a member of a cluster has its flag cleared by \<open>pushMarkerTo_\<close> and seeds a
  second cluster in the pass that follows. And \<open>resetViewport\<close> clears the flags of the
  tracked markers only, so a marker removed by \<open>removeMarker\<close> keeps its flag while the
  clusters are rebuilt without it.
\<close>

lemma ex_single_more: "ready ex_single" "tree ex_single = [(0, 0, 0)]"
  "position ex_single = (\<lambda>m. \<lparr>lat = 0, lng = 2 * real m\<rparr>)" "gridSize ex_single = 2"
  "isClusterable ex_single = (\<lambda>m. True)"
proof -
  define wb where "wb = (ex_engine 2)\<lparr>ready := True, isAdded := (\<lambda>m. False), markers := [0],
      tree := [(0, 0, 0)]\<rparr>"
  have p: "position (ex_engine 2) 0 = \<lparr>lat = 0, lng = 0\<rparr>" "isAdded (ex_engine 2) = (\<lambda>m. False)"
    "markers (ex_engine 2) = []" "tree (ex_engine 2) = []"
    by (simp_all add: ex_defs)
  have s: "ex_single = state_of (createClusters (ex_gmap 5) wb)"
    unfolding ex_single_def ex_mounted_eq wb_def
    by (simp add: addMarker_def pushMarkerTo_def Let_def redraw_def
        set_isAdded_def getMarkerNode_def rbush_insert_def p fun_upd_idem)
  have r: "ready wb" by (simp add: wb_def)
  have b: "getBounds (ex_gmap 5) =
      Some (LatLngBounds_new \<lparr>lat = - 10, lng = - 10\<rparr> \<lparr>lat = 10, lng = 10\<rparr>)"
    by (simp add: ex_gmap_def)
  have fr: "pass_frame wb ex_single"
    unfolding s createClusters_ready[OF r b] by (simp add: pass_fold_frame)
  show "ready ex_single" "tree ex_single = [(0, 0, 0)]"
    "position ex_single = (\<lambda>m. \<lparr>lat = 0, lng = 2 * real m\<rparr>)" "gridSize ex_single = 2"
    "isClusterable ex_single = (\<lambda>m. True)"
    by (simp_all add: pass_frame_fields[OF fr]) (simp_all add: wb_def ex_defs)
qed

lemma double_registration:
  "0 \<in> set (markers ex_double) \<and> isAdded ex_double 0 \<and>
   map cl_markers (clusters ex_double) = [[0], [0]] \<and> length (owners ex_double 0) = 2"
proof -
  let ?mb = "LatLngBounds_new \<lparr>lat = - 10, lng = - 10\<rparr> \<lparr>lat = 10, lng = 10\<rparr>"
  define wb where "wb = ex_single\<lparr>isAdded := (isAdded ex_single)(0 := False), markers := [0, 0],
      tree := [(0, 0, 0), (0, 0, 0)]\<rparr>"
  have s: "ex_double = state_of (createClusters (ex_gmap 5) wb)"
    unfolding ex_double_def wb_def
    by (simp add: addMarker_def pushMarkerTo_def Let_def redraw_def set_isAdded_def
        getMarkerNode_def rbush_insert_def ex_single_fields ex_single_more)
  have f: "ready wb" "markers wb = [0, 0]" "tree wb = [(0, 0, 0), (0, 0, 0)]"
    "isAdded wb 0 = False" "gridSize wb = 2"
    "position wb = (\<lambda>m. \<lparr>lat = 0, lng = 2 * real m\<rparr>)" "isClusterable wb = (\<lambda>m. True)"
    "map cl_markers (clusters wb) = [[0]]"
    by (simp_all add: wb_def ex_single_fields ex_single_more)
  have b: "getBounds (ex_gmap 5) = Some ?mb" by (simp add: ex_gmap_def)
  have g: "greedy_pass (inViewport (ex_gmap 5) wb ?mb) (isClusterable wb)
      (catchment_search (ex_gmap 5) wb) (isAdded wb) (markers wb) = [[0]]"
    by (simp add: f inViewport_def expandedViewport_def catchment_search_def
      getExtendedBounds_def ex_gmap_def LatLngBounds_new_def bounds_extend_def bounds_contains_def
      rbush_search_def boundsToArray_def Let_def)
  note m = createClusters_members[OF f(1) b, unfolded g, folded s]
  have fr: "pass_frame wb ex_double"
    unfolding s createClusters_ready[OF f(1) b] by (simp add: pass_fold_frame)
  have c: "map cl_markers (clusters ex_double) = [[0], [0]]"
  proof -
    have "map cl_markers (clusters ex_double) =
        map cl_markers (take (length (clusters wb)) (clusters ex_double)) @
        map cl_markers (drop (length (clusters wb)) (clusters ex_double))"
      by (simp flip: map_append)
    then show ?thesis using m f(8) by simp
  qed
  have "owners ex_double 0 = clusters ex_double"
    using c by (auto simp: owners_def filter_id_conv dest!: arg_cong[of _ _ "\<lambda>l. \<forall>x \<in> set l. 0 \<in> set x"])
  moreover have "length (clusters ex_double) = 2"
    using arg_cong[OF c, of length] by simp
  ultimately have "length (owners ex_double 0) = 2" by simp
  moreover have "0 \<in> set (markers ex_double)" by (simp add: pass_frame_fields[OF fr] f)
  moreover have "isAdded ex_double 0" using m by simp
  ultimately show ?thesis using c by simp
qed

lemma removed_marker_keeps_flag:
  "1 \<notin> set (markers ex_removed) \<and> isAdded ex_removed 1 \<and>
   map cl_markers (clusters ex_removed) = [[0], [2]] \<and> owners ex_removed 1 = []"
proof -
  let ?mb = "LatLngBounds_new \<lparr>lat = - 10, lng = - 10\<rparr> \<lparr>lat = 10, lng = 10\<rparr>"
  define wr where "wr = resetViewport False
      (ex_clustered\<lparr>marker_map := (marker_map ex_clustered)(1 := None),
         markers := remove1 1 (markers ex_clustered),
         tree := filter (\<lambda>nd. snd (snd nd) \<noteq> 1) (tree ex_clustered)\<rparr>)"
  have t: "1 \<in> set (markers ex_clustered)" by (simp add: ex_clustered_fields)
  have f: "ready wr" "markers wr = [0, 2, 7]" "tree wr = [(0, 0, 0), (0, 4, 2), (0, 14, 7)]"
    "isAdded wr = (\<lambda>x. x = 1)" "clusters wr = []"
    by (auto simp: wr_def resetViewport_eq ex_clustered_fields fun_eq_iff)
  have fr0: "pass_frame ex_loaded ex_clustered"
    unfolding ex_clustered_def redraw_def
      createClusters_ready[OF ex_loaded_fields(1), of "ex_gmap 5" ?mb, simplified ex_gmap_def, simplified, folded ex_gmap_def]
    by (simp add: pass_fold_frame)
  have f2: "gridSize wr = 2" "position wr = (\<lambda>m. \<lparr>lat = 0, lng = 2 * real m\<rparr>)"
    "isClusterable wr = (\<lambda>m. True)"
    by (simp_all add: wr_def resetViewport_eq pass_frame_fields[OF fr0] ex_loaded_fields)
  have b: "getBounds (ex_gmap 5) = Some ?mb" by (simp add: ex_gmap_def)
  have s: "ex_removed = state_of (createClusters (ex_gmap 5) wr)"
    unfolding ex_removed_def wr_def removeMarker_def removeMarker_internal_tracked[OF t]
    by (simp add: redraw_def)
  have g: "greedy_pass (inViewport (ex_gmap 5) wr ?mb) (isClusterable wr)
      (catchment_search (ex_gmap 5) wr) (isAdded wr) (markers wr) = [[0], [2]]"
    by (simp add: f f2 inViewport_def expandedViewport_def catchment_search_def
      getExtendedBounds_def ex_gmap_def LatLngBounds_new_def bounds_extend_def bounds_contains_def
      rbush_search_def boundsToArray_def Let_def)
  note m = createClusters_members[OF f(1) b, unfolded g, folded s]
  have fr: "pass_frame wr ex_removed"
    unfolding s createClusters_ready[OF f(1) b] by (simp add: pass_fold_frame)
  have c: "map cl_markers (clusters ex_removed) = [[0], [2]]" using m by (simp add: f)
  have "owners ex_removed 1 = []"
    using c by (auto simp: owners_empty_iff dest!: arg_cong[of _ _ "\<lambda>l. \<forall>x \<in> set l. 1 \<notin> set x"])
  moreover have "1 \<notin> set (markers ex_removed)" by (simp add: pass_frame_fields[OF fr] f)
  moreover have "isAdded ex_removed 1" using m by (simp add: f)
  ultimately show ?thesis using c by simp
qed

text \<open>While the engine is not ready it has no cluster and no tracked marker is flagged.\<close>

lemma createClusters_keeps_ready: "ready (state_of (createClusters gm w)) = ready w"
proof (cases "ready w")
  case False
  then show ?thesis by (simp add: createClusters_def)
next
  case True
  show ?thesis
  proof (cases "getBounds gm")
    case None
    then show ?thesis using True by (simp add: createClusters_def)
  next
    case (Some mb)
    show ?thesis
      unfolding createClusters_ready[OF True Some]
      by (simp add: pass_frame_fields[OF pass_fold_frame])
  qed
qed

lemma quiet_cong:
  "quiet w \<Longrightarrow> clusters w' = clusters w \<Longrightarrow> isAdded w' = isAdded w \<Longrightarrow>
   set (markers w') \<subseteq> set (markers w) \<Longrightarrow> quiet w'"
  by (auto simp: quiet_def)

lemma unready_createClusters:
  assumes "\<not> ready w \<longrightarrow> quiet w"
  shows "\<not> ready (state_of (createClusters gm w)) \<longrightarrow> quiet (state_of (createClusters gm w))"
proof (cases "ready w")
  case False
  then show ?thesis using assms by (simp add: createClusters_def)
next
  case True
  then show ?thesis by (simp add: createClusters_keeps_ready)
qed

lemma quiet_reset: "quiet (resetViewport reset w)"
  by (simp add: quiet_def resetViewport_eq)

lemma unready_reset_pass:
  "\<not> ready (state_of (createClusters gm (resetViewport reset w))) \<longrightarrow>
   quiet (state_of (createClusters gm (resetViewport reset w)))"
  by (rule unready_createClusters) (simp add: quiet_reset)

lemma removeMarker_internal_fields:
  "clusters (snd (removeMarker_internal w marker)) = clusters w"
  "isAdded (snd (removeMarker_internal w marker)) = isAdded w"
  "ready (snd (removeMarker_internal w marker)) = ready w"
  "set (markers (snd (removeMarker_internal w marker))) \<subseteq> set (markers w)"
proof -
  show "clusters (snd (removeMarker_internal w marker)) = clusters w"
    by (cases "marker \<in> set (markers w)")
       (simp_all add: removeMarker_internal_absent removeMarker_internal_tracked)
  show "isAdded (snd (removeMarker_internal w marker)) = isAdded w"
    by (cases "marker \<in> set (markers w)")
       (simp_all add: removeMarker_internal_absent removeMarker_internal_tracked)
  show "ready (snd (removeMarker_internal w marker)) = ready w"
    by (cases "marker \<in> set (markers w)")
       (simp_all add: removeMarker_internal_absent removeMarker_internal_tracked)
  show "set (markers (snd (removeMarker_internal w marker))) \<subseteq> set (markers w)"
    using set_remove1_subset[of marker "markers w"]
    by (cases "marker \<in> set (markers w)")
       (simp_all add: removeMarker_internal_absent removeMarker_internal_tracked)
qed

lemma unready_removeMarker_internal:
  assumes "\<not> ready w \<longrightarrow> quiet w"
  shows "\<not> ready (snd (removeMarker_internal w marker)) \<longrightarrow>
     quiet (snd (removeMarker_internal w marker))"
  using assms removeMarker_internal_fields[of w marker]
  by (auto intro: quiet_cong)

lemma unready_removeMarkers_fold:
  "\<not> ready (snd rw) \<longrightarrow> quiet (snd rw) \<Longrightarrow>
   \<not> ready (snd (fold (\<lambda>marker rw. case rw of (removed, w) \<Rightarrow>
       (case removeMarker_internal w marker of (r, w) \<Rightarrow> (removed \<or> r, w))) ms rw)) \<longrightarrow>
   quiet (snd (fold (\<lambda>marker rw. case rw of (removed, w) \<Rightarrow>
       (case removeMarker_internal w marker of (r, w) \<Rightarrow> (removed \<or> r, w))) ms rw))"
proof (induction ms arbitrary: rw)
  case Nil
  then show ?case by simp
next
  case (Cons a ms)
  obtain removed w where rw: "rw = (removed, w)" by (cases rw)
  obtain r w1 where r: "removeMarker_internal w a = (r, w1)" by (cases "removeMarker_internal w a")
  have "\<not> ready w1 \<longrightarrow> quiet w1"
    using unready_removeMarker_internal[of w a] Cons.prems by (simp add: rw r)
  then have "\<not> ready (snd (removed \<or> r, w1)) \<longrightarrow> quiet (snd (removed \<or> r, w1))" by simp
  from Cons.IH[OF this] show ?case by (simp add: rw r)
qed

lemma reachable_unready: "reachable w \<Longrightarrow> \<not> ready w \<longrightarrow> quiet w"
proof (induction rule: reachable.induct)
  case (r_init mp h opts)
  show ?case by (simp add: quiet_def MarkerClusterer_init_def)
next
  case (r_onAdd w gm)
  show ?case
    by (cases "ready w") (simp_all add: onAdd_def setReady_def createClusters_keeps_ready)
next
  case (r_addMarker w marker gm nodraw)
  define w2 where "w2 = (pushMarkerTo marker w)\<lparr>tree :=
      rbush_insert (getMarkerNode (pushMarkerTo marker w) marker) (tree (pushMarkerTo marker w))\<rparr>"
  have a: "\<not> ready w2 \<longrightarrow> quiet w2"
    using r_addMarker.IH by (auto simp: w2_def quiet_def pushMarkerTo_def Let_def)
  have "state_of (addMarker gm w marker nodraw) =
      (if nodraw then w2 else state_of (createClusters gm w2))"
    by (simp add: addMarker_def Let_def redraw_def w2_def)
  then show ?case using a unready_createClusters[OF a, of gm] by simp
next
  case (r_addMarkers w ms gm nodraw)
  define w2 where "w2 = (fold pushMarkerTo ms w)\<lparr>tree :=
      rbush_load (map (getMarkerNode (fold pushMarkerTo ms w)) ms) (tree (fold pushMarkerTo ms w))\<rparr>"
  have a: "\<not> ready w2 \<longrightarrow> quiet w2"
    using r_addMarkers.IH by (auto simp: w2_def quiet_def fold_pushMarkerTo)
  have "state_of (addMarkers gm w ms nodraw) =
      (if nodraw then w2 else state_of (createClusters gm w2))"
    by (simp add: addMarkers_def Let_def redraw_def w2_def)
  then show ?case using a unready_createClusters[OF a, of gm] by simp
next
  case (r_removeMarker w gm marker nodraw)
  obtain b w1 where r: "removeMarker_internal w marker = (b, w1)"
    by (cases "removeMarker_internal w marker")
  have a: "\<not> ready w1 \<longrightarrow> quiet w1"
    using unready_removeMarker_internal[OF r_removeMarker.IH, of marker] by (simp add: r)
  have "state_of (removeMarker gm w marker nodraw) =
      (if \<not> nodraw \<and> b then state_of (createClusters gm (resetViewport False w1)) else w1)"
    by (simp add: removeMarker_def r redraw_def)
  then show ?case using a unready_reset_pass[of gm False w1] by simp
next
  case (r_removeMarkers w gm ms nodraw)
  obtain b w1 where r: "fold (\<lambda>marker rw. case rw of (removed, w) \<Rightarrow>
       (case removeMarker_internal w marker of (r, w) \<Rightarrow> (removed \<or> r, w))) ms (False, w) = (b, w1)"
    by (cases "fold (\<lambda>marker rw. case rw of (removed, w) \<Rightarrow>
       (case removeMarker_internal w marker of (r, w) \<Rightarrow> (removed \<or> r, w))) ms (False, w)")
  have a: "\<not> ready w1 \<longrightarrow> quiet w1"
    using unready_removeMarkers_fold[of "(False, w)" ms] r_removeMarkers.IH by (simp add: r)
  have "state_of (removeMarkers gm w ms nodraw) =
      (if \<not> nodraw \<and> b then state_of (createClusters gm (resetViewport False w1)) else w1)"
    by (simp add: removeMarkers_def r redraw_def)
  then show ?case using a unready_reset_pass[of gm False w1] by simp
next
  case (r_redraw w gm)
  then show ?case using unready_createClusters[of w gm] by (simp add: redraw_def)
next
  case (r_repaint w gm)
  show ?case using unready_reset_pass[of gm False w] by (simp add: repaint_def redraw_def)
next
  case (r_resetViewport w reset)
  show ?case by (simp add: quiet_reset)
next
  case (r_clearMarkers w gm nodraw)
  define w2 where "w2 = (resetViewport True w)\<lparr>markers := [],
      tree := rbush_clear (tree (resetViewport True w))\<rparr>"
  have a: "\<not> ready w2 \<longrightarrow> quiet w2"
    by (simp add: w2_def quiet_def resetViewport_eq)
  have "state_of (clearMarkers gm w nodraw) =
      (if nodraw then w2 else state_of (createClusters gm w2))"
    by (simp add: clearMarkers_def Let_def redraw_def w2_def)
  then show ?case using a unready_createClusters[OF a, of gm] by simp
qed

text \<open>
  Claim C9. While the engine is not ready, a requested pass is skipped: \<open>createClusters_\<close>
  and \<open>redraw\<close> return and leave the whole state as it is; \<open>repaint\<close> returns the state
  that its \<open>resetViewport\<close> left, which has the same marker list and spatial index, and
  which is the state before the call when no cluster exists and no tracked marker is
  flagged, as is the case in every reachable state of an engine that is not ready.
\<close>

theorem pass_skipped_until_ready:
  "\<not> ready w \<Longrightarrow>
   createClusters gm w = Returns () w \<and>
   redraw gm w = Returns () w \<and>
   repaint gm w = Returns () (resetViewport False w) \<and>
   markers (resetViewport False w) = markers w \<and>
   tree (resetViewport False w) = tree w \<and>
   (clusters w = [] \<and> (\<forall>m \<in> set (markers w). \<not> isAdded w m) \<longrightarrow> repaint gm w = Returns () w) \<and>
   (reachable w \<longrightarrow> repaint gm w = Returns () w)"
proof -
  assume n: "\<not> ready w"
  have r: "\<not> ready (resetViewport False w)" using n by (simp add: resetViewport_eq)
  have "repaint gm w = Returns () (resetViewport False w)"
    by (simp add: repaint_def redraw_def createClusters_not_ready_eq[OF r])
  moreover have "repaint gm w = Returns () w" if "reachable w"
    using reachable_unready[OF that] n
    by (simp add: repaint_def redraw_def createClusters_not_ready_eq resetViewport_idle quiet_def)
  ultimately show ?thesis
    using n by (auto simp: redraw_def createClusters_not_ready_eq resetViewport_idle)
       (simp_all add: resetViewport_eq)
qed

theorem pass_skipped_until_ready_witness:
  "\<not> ready ex_unmounted \<and> reachable ex_unmounted \<and>
   markers ex_unmounted = [0, 1, 2, 7] \<and>
   tree ex_unmounted = [(0, 0, 0), (0, 2, 1), (0, 4, 2), (0, 14, 7)] \<and>
   clusters ex_unmounted = [] \<and>
   createClusters (ex_gmap 5) ex_unmounted = Returns () ex_unmounted \<and>
   redraw (ex_gmap 5) ex_unmounted = Returns () ex_unmounted \<and>
   repaint (ex_gmap 5) ex_unmounted = Returns () ex_unmounted"
proof -
  have e: "ex_unmounted = (ex_engine 2)\<lparr>markers := [0, 1, 2, 7],
      tree := [(0, 0, 0), (0, 2, 1), (0, 4, 2), (0, 14, 7)]\<rparr>"
    by (simp add: ex_unmounted_def addMarkers_def pushMarkerTo_def set_isAdded_def Let_def
        redraw_def createClusters_def rbush_load_def getMarkerNode_def ex_defs fun_upd_idem)
  have r0: "reachable (ex_engine 2)" unfolding ex_engine_def by (rule r_init)
  have o: "list_all (\<lambda>m. owners (ex_engine 2) m = []) [0, 1, 2, 7]"
    by (simp add: owners_def ex_defs)
  have r: "reachable ex_unmounted" unfolding ex_unmounted_def by (rule r_addMarkers[OF r0 o])
  have n: "\<not> ready ex_unmounted" "markers ex_unmounted = [0, 1, 2, 7]"
    "tree ex_unmounted = [(0, 0, 0), (0, 2, 1), (0, 4, 2), (0, 14, 7)]" "clusters ex_unmounted = []"
    by (simp_all add: e ex_defs)
  show ?thesis
    using pass_skipped_until_ready[OF n(1), of "ex_gmap 5"] r n by blast
qed

end
